theory Spec2Isabelle
  imports Main "HOL-Library.AList"
begin

section \<open>Values, exceptions and the outside world\<close>

text \<open>
  The program is a single Python script (\<^verbatim>\<open>src/main.py\<close>) that talks to an HTTP inventory
  service, spawns \<^verbatim>\<open>ssh\<close> and \<^verbatim>\<open>qemu-img\<close>, and reads and writes local files.
  Values decoded from JSON are kept as a datatype; a Python \<^verbatim>\<open>dict\<close> is an association
  list (the first binding of a key is the effective one, \<open>AList.update\<close> is assignment).
  \<open>JNull\<close> is Python's \<^verbatim>\<open>None\<close>. JSON floats are left out.
\<close>

datatype json =
    JNull
  | JBool bool
  | JInt int
  | JStr string
  | JList "json list"
  | JObj "(string \<times> json) list"

text \<open>Python truthiness, as used by \<^verbatim>\<open>not x\<close>, \<^verbatim>\<open>x or y\<close> and \<^verbatim>\<open>if x\<close>.\<close>

fun truthy :: "json \<Rightarrow> bool" where
  "truthy JNull = False"
| "truthy (JBool b) = b"
| "truthy (JInt i) = (i \<noteq> 0)"
| "truthy (JStr s) = (s \<noteq> [])"
| "truthy (JList xs) = (xs \<noteq> [])"
| "truthy (JObj kvs) = (kvs \<noteq> [])"

text \<open>\<^verbatim>\<open>x or y\<close>\<close>

definition py_or :: "json \<Rightarrow> json \<Rightarrow> json" where
  "py_or x y = (if truthy x then x else y)"

text \<open>
  The reasons for which the script calls \<^verbatim>\<open>die\<close> (which logs and raises
  \<^verbatim>\<open>SystemExit(1)\<close>), one per call site, and the Python exceptions that can escape.
\<close>

datatype fatal =
    SessionMissing
  | MissingCommand string
  | VmNotFound
  | MissingUuidOrInstallPath
  | InstallPathNotFound
  | NotRunningInTime
  | RemoteFailed string int
  | QemuNotFound
  | QemuNotExecutable
  | NotEnoughFreeSpace int nat
  | SmallerThanActualSize
  | OutputExists

datatype pyexc =
    AttributeError
  | TypeError
  | KeyError
  | ValueError
  | RequestException
  | HTTPError
  | RuntimeError
  | OSError

datatype exn = SystemExit fatal | Raised pyexc

text \<open>
  What the script asks of the outside, recorded in order. The environment passed to a
  subprocess is recorded with the call (the inherited one when the script passes none).
\<close>

datatype http_request =
    LoginReq
  | GetVmReq string
  | StartVmReq json

datatype event =
    Sleep int
  | Http http_request
  | Exec "string list" "(string \<times> string) list"
  | WriteText string string
  | Unlink string

datatype http_reply =
    NoConnection
  | BadStatus
  | BadBody
  | Body json

datatype proc_result =
    SpawnFailed
  | Exited int string "string option"

text \<open>
  The outside is a record of answers. The \<open>k\<close>-th HTTP request gets \<open>http k\<close> after
  \<open>http_latency k\<close> seconds; the \<open>k\<close>-th subprocess ends as \<open>spawn k argv\<close> says
  (exit status, standard output, and for a conversion the bytes left at its destination, if
  any); \<open>disk_free k\<close> is the free space of the working directory's filesystem once \<open>k\<close>
  subprocesses have run. Library functions the script calls are answers too: \<open>md5_hex\<close> is
  the MD5 function of \<^verbatim>\<open>hashlib\<close>, \<open>json_loads\<close> the JSON decoder, \<open>parse_int\<close> is
  \<^verbatim>\<open>int\<close> on a string and \<open>format_value\<close> is \<^verbatim>\<open>str\<close> on a value that is not a string.
\<close>

record env =
  which :: "string \<Rightarrow> bool"
  http :: "nat \<Rightarrow> http_request \<Rightarrow> http_reply"
  http_latency :: "nat \<Rightarrow> nat"
  spawn :: "nat \<Rightarrow> string list \<Rightarrow> proc_result"
  disk_free :: "nat \<Rightarrow> nat"
  is_executable :: "string \<Rightarrow> bool"
  write_ok :: "string \<Rightarrow> bool"
  unlink_ok :: "string \<Rightarrow> bool"
  md5_hex :: "string \<Rightarrow> string"
  json_loads :: "string \<Rightarrow> json option"
  parse_int :: "string \<Rightarrow> int option"
  format_value :: "json \<Rightarrow> string"

text \<open>
  The state the script can change or observe: the clock (whole seconds), the trace, the
  counters of requests and subprocesses, the local files, and the heap of \<^verbatim>\<open>dict\<close>
  objects holding environments; \<^verbatim>\<open>os.environ\<close> is the object at address \<open>0\<close> and fresh
  objects get addresses from \<open>1\<close> on.
\<close>

record world =
  now :: int
  trace :: "event list"
  requests :: nat
  execs :: nat
  files :: "string \<Rightarrow> string option"
  heap :: "nat \<Rightarrow> (string \<times> string) list"
  allocated :: nat

type_synonym 'a io = "world \<Rightarrow> (exn + 'a) \<times> world"

definition return :: "'a \<Rightarrow> 'a io" where
  "return a w = (Inr a, w)"

definition raise :: "exn \<Rightarrow> 'a io" where
  "raise e w = (Inl e, w)"

definition bind :: "'a io \<Rightarrow> ('a \<Rightarrow> 'b io) \<Rightarrow> 'b io" where
  "bind m f w = (case m w of (Inl e, w') \<Rightarrow> (Inl e, w') | (Inr a, w') \<Rightarrow> f a w')"

definition emit :: "event \<Rightarrow> world \<Rightarrow> world" where
  "emit e w = w\<lparr>trace := trace w @ [e]\<rparr>"

text \<open>\<^verbatim>\<open>die(msg)\<close>: the message is logged and the process exits with status 1.\<close>

definition die :: "fatal \<Rightarrow> 'a io" where
  "die f = raise (SystemExit f)"

text \<open>\<^verbatim>\<open>time.sleep(n)\<close>: a negative argument raises \<^verbatim>\<open>ValueError\<close>.\<close>

definition sleep :: "int \<Rightarrow> unit io" where
  "sleep n w =
     (if n < 0 then (Inl (Raised ValueError), w)
      else (Inr (), emit (Sleep n) (w\<lparr>now := now w + n\<rparr>)))"

section \<open>Dictionaries and strings\<close>

text \<open>\<^verbatim>\<open>d.get(k, default)\<close>; only a \<^verbatim>\<open>dict\<close> has the method.\<close>

definition dict_get :: "json \<Rightarrow> string \<Rightarrow> json \<Rightarrow> exn + json" where
  "dict_get d k dflt =
     (case d of
        JObj kvs \<Rightarrow> (case map_of kvs k of None \<Rightarrow> Inr dflt | Some v \<Rightarrow> Inr v)
      | _ \<Rightarrow> Inl (Raised AttributeError))"

text \<open>\<^verbatim>\<open>d[k]\<close> with a string key.\<close>

definition subscript :: "json \<Rightarrow> string \<Rightarrow> exn + json" where
  "subscript d k =
     (case d of
        JObj kvs \<Rightarrow> (case map_of kvs k of None \<Rightarrow> Inl (Raised KeyError) | Some v \<Rightarrow> Inr v)
      | _ \<Rightarrow> Inl (Raised TypeError))"

text \<open>
  \<^verbatim>\<open>x[0]\<close> on a value already known to be truthy: the first element of a list, the first
  character of a string, \<^verbatim>\<open>KeyError\<close> on a dict (its keys are strings), \<^verbatim>\<open>TypeError\<close>
  otherwise.
\<close>

definition index0 :: "json \<Rightarrow> exn + json" where
  "index0 x =
     (case x of
        JList (v # _) \<Rightarrow> Inr v
      | JStr (c # _) \<Rightarrow> Inr (JStr [c])
      | JObj _ \<Rightarrow> Inl (Raised KeyError)
      | _ \<Rightarrow> Inl (Raised TypeError))"

text \<open>
  \<^verbatim>\<open>str.lower\<close> on the ASCII letters. No character outside ASCII lowers to a letter of
  \<^verbatim>\<open>running\<close>, so the comparison with that word is the same as in Python.
\<close>

definition lower_char :: "char \<Rightarrow> char" where
  "lower_char c =
     (case map_of (zip ''ABCDEFGHIJKLMNOPQRSTUVWXYZ'' ''abcdefghijklmnopqrstuvwxyz'') c of
        None \<Rightarrow> c
      | Some l \<Rightarrow> l)"

definition lower :: "string \<Rightarrow> string" where
  "lower s = map lower_char s"

text \<open>\<^verbatim>\<open>(x or "").lower()\<close>\<close>

definition lower_or_empty :: "json \<Rightarrow> exn + string" where
  "lower_or_empty x =
     (case py_or x (JStr []) of
        JStr s \<Rightarrow> Inr (lower s)
      | _ \<Rightarrow> Inl (Raised AttributeError))"

section \<open>Inventory client\<close>

record ZStackClient =
  client_host :: string
  client_username :: string
  client_password :: string
  session_uuid :: json

text \<open>
  One HTTP exchange as the client methods do it: the request is sent, takes its time, and
  the reply is decoded (\<^verbatim>\<open>requests.get/put\<close>, \<^verbatim>\<open>raise_for_status\<close>, \<^verbatim>\<open>resp.json()\<close>).
\<close>

definition http_call :: "env \<Rightarrow> http_request \<Rightarrow> http_reply io" where
  "http_call e req w =
     (let k = requests w
      in (Inr (http e k req),
          emit (Http req) (w\<lparr>now := now w + int (http_latency e k), requests := Suc k\<rparr>)))"

definition headers :: "ZStackClient \<Rightarrow> unit io" where
  "headers c = (if \<not> truthy (session_uuid c) then die SessionMissing else return ())"

text \<open>
  \<^verbatim>\<open>login\<close> stores \<^verbatim>\<open>body["inventory"]["uuid"]\<close> in the client and returns it; the
  updated client is returned with it.
\<close>

definition login :: "env \<Rightarrow> ZStackClient \<Rightarrow> (json \<times> ZStackClient) io" where
  "login e c =
     bind (http_call e LoginReq) (\<lambda>r.
       case r of
         NoConnection \<Rightarrow> raise (Raised RequestException)
       | BadStatus \<Rightarrow> raise (Raised HTTPError)
       | BadBody \<Rightarrow> raise (Raised ValueError)
       | Body body \<Rightarrow>
           (case subscript body ''inventory'' of
              Inl x \<Rightarrow> raise x
            | Inr inventory \<Rightarrow>
                (case subscript inventory ''uuid'' of
                   Inl x \<Rightarrow> raise x
                 | Inr u \<Rightarrow> return (u, c\<lparr>session_uuid := u\<rparr>))))"

text \<open>
  \<^verbatim>\<open>get_vm_by_ip\<close>: \<^verbatim>\<open>inventories = data.get("inventories") or []\<close>, then \<^verbatim>\<open>None\<close>
  when that is falsy and \<^verbatim>\<open>inventories[0]\<close> otherwise.
\<close>

definition first_inventory :: "json \<Rightarrow> exn + json" where
  "first_inventory data =
     (case dict_get data ''inventories'' JNull of
        Inl x \<Rightarrow> Inl x
      | Inr v \<Rightarrow>
          (let inventories = py_or v (JList [])
           in if \<not> truthy inventories then Inr JNull else index0 inventories))"

definition get_vm_by_ip :: "env \<Rightarrow> ZStackClient \<Rightarrow> string \<Rightarrow> json io" where
  "get_vm_by_ip e c target_ip =
     bind (headers c) (\<lambda>_.
     bind (http_call e (GetVmReq target_ip)) (\<lambda>r.
       case r of
         NoConnection \<Rightarrow> raise (Raised RequestException)
       | BadStatus \<Rightarrow> raise (Raised HTTPError)
       | BadBody \<Rightarrow> raise (Raised ValueError)
       | Body data \<Rightarrow>
           (case first_inventory data of Inl x \<Rightarrow> raise x | Inr vm \<Rightarrow> return vm)))"

definition start_vm :: "env \<Rightarrow> ZStackClient \<Rightarrow> json \<Rightarrow> unit io" where
  "start_vm e c vm_uuid =
     bind (headers c) (\<lambda>_.
     bind (http_call e (StartVmReq vm_uuid)) (\<lambda>r.
       case r of
         NoConnection \<Rightarrow> raise (Raised RequestException)
       | BadStatus \<Rightarrow> raise (Raised HTTPError)
       | _ \<Rightarrow> return ()))"

section \<open>Root volume\<close>

text \<open>
  \<^verbatim>\<open>for vol in vm.get("allVolumes", []): if vol.get("type") == "Root": return
  vol.get("installPath")\<close>; \<^verbatim>\<open>return None\<close> after the loop.
\<close>

fun scan_volumes :: "json list \<Rightarrow> exn + json" where
  "scan_volumes [] = Inr JNull"
| "scan_volumes (vol # vols) =
     (case dict_get vol ''type'' JNull of
        Inl x \<Rightarrow> Inl x
      | Inr t \<Rightarrow>
          if t = JStr ''Root'' then dict_get vol ''installPath'' JNull
          else scan_volumes vols)"

text \<open>
  What the \<^verbatim>\<open>for\<close> statement iterates over: the elements of a list, the characters of a
  string, the keys of a dict; anything else is not iterable.
\<close>

definition iterate :: "json \<Rightarrow> exn + json list" where
  "iterate x =
     (case x of
        JList xs \<Rightarrow> Inr xs
      | JStr s \<Rightarrow> Inr (map (\<lambda>c. JStr [c]) s)
      | JObj kvs \<Rightarrow> Inr (map JStr (remdups (map fst kvs)))
      | _ \<Rightarrow> Inl (Raised TypeError))"

definition get_root_install_path :: "json \<Rightarrow> exn + json" where
  "get_root_install_path vm =
     (case dict_get vm ''allVolumes'' (JList []) of
        Inl x \<Rightarrow> Inl x
      | Inr vs \<Rightarrow> (case iterate vs of Inl x \<Rightarrow> Inl x | Inr vols \<Rightarrow> scan_volumes vols))"

text \<open>
  The same in the words of the specification: the install path of the first volume tagged
  \<^verbatim>\<open>Root\<close>, \<^verbatim>\<open>None\<close> when there is none.
\<close>

definition is_root :: "json \<Rightarrow> bool" where
  "is_root vol = (dict_get vol ''type'' JNull = Inr (JStr ''Root''))"

definition first_root_install_path :: "json list \<Rightarrow> exn + json" where
  "first_root_install_path vols =
     (case find is_root vols of
        None \<Rightarrow> Inr JNull
      | Some vol \<Rightarrow> dict_get vol ''installPath'' JNull)"

definition is_dict :: "json \<Rightarrow> bool" where
  "is_dict x = (case x of JObj _ \<Rightarrow> True | _ \<Rightarrow> False)"

section \<open>Subprocesses and the remote executor\<close>

text \<open>
  \<^verbatim>\<open>qemu-img convert -f F -O G src dst\<close> is the one subprocess of the script that writes
  a local file: what it leaves at \<^verbatim>\<open>dst\<close> is the third component of its result.
\<close>

fun written :: "string list \<Rightarrow> proc_result \<Rightarrow> (string \<times> string) option" where
  "written [q, c, a1, sf, a2, df, src, dst] (Exited rc out (Some bytes)) =
     (if c = ''convert'' then Some (dst, bytes) else None)"
| "written argv r = None"

text \<open>
  \<^verbatim>\<open>run_cmd(cmd, env, check=True)\<close>: the subprocess runs to its end; a binary that cannot
  be started is \<^verbatim>\<open>OSError\<close>, a non-zero exit status \<^verbatim>\<open>RuntimeError\<close>. The result is the
  standard output. \<open>envref\<close> is the address of the environment dict, \<open>None\<close> for the
  inherited one.
\<close>

definition run_cmd :: "env \<Rightarrow> string list \<Rightarrow> nat option \<Rightarrow> string io" where
  "run_cmd e cmd envref w =
     (let k = execs w;
          r = spawn e k cmd;
          environment = heap w (case envref of None \<Rightarrow> 0 | Some a \<Rightarrow> a);
          w1 = emit (Exec cmd environment) (w\<lparr>execs := Suc k\<rparr>);
          w2 = (case written cmd r of
                  None \<Rightarrow> w1
                | Some (dst, bytes) \<Rightarrow> w1\<lparr>files := (files w1)(dst \<mapsto> bytes)\<rparr>)
      in case r of
           SpawnFailed \<Rightarrow> (Inl (Raised OSError), w2)
         | Exited rc out _ \<Rightarrow>
             if rc \<noteq> 0 then (Inl (Raised RuntimeError), w2) else (Inr out, w2))"

record SSHRunner =
  ssh_user :: string
  ssh_pass :: string

definition ssh_argv :: "SSHRunner \<Rightarrow> string \<Rightarrow> string \<Rightarrow> string list" where
  "ssh_argv r ip remote_cmd =
     [''sshpass'', ''-p'', ssh_pass r, ''ssh'', ''-o'', ''StrictHostKeyChecking=no'',
      ''-o'', ''UserKnownHostsFile=/dev/null'', ssh_user r @ ''@'' @ ip, remote_cmd]"

text \<open>
  \<^verbatim>\<open>SSHRunner.run\<close>: the loop \<^verbatim>\<open>for attempt in range(1, retries + 1)\<close>, from the
  current \<open>attempt\<close> on. \<^verbatim>\<open>except Exception\<close> catches every failure of \<^verbatim>\<open>run_cmd\<close>;
  \<^verbatim>\<open>SystemExit\<close> and an exception raised inside the handler escape.
\<close>

function run_from :: "env \<Rightarrow> SSHRunner \<Rightarrow> string \<Rightarrow> string \<Rightarrow> int \<Rightarrow> int \<Rightarrow> int \<Rightarrow> unit io" where
  "run_from e r ip remote_cmd retries retry_interval attempt w =
     (if attempt < retries + 1 then
        (case run_cmd e (ssh_argv r ip remote_cmd) None w of
           (Inr _, w1) \<Rightarrow> (Inr (), w1)
         | (Inl (SystemExit f), w1) \<Rightarrow> (Inl (SystemExit f), w1)
         | (Inl (Raised x), w1) \<Rightarrow>
             if attempt < retries then
               (case sleep retry_interval w1 of
                  (Inl x, w2) \<Rightarrow> (Inl x, w2)
                | (Inr _, w2) \<Rightarrow>
                    run_from e r ip remote_cmd retries retry_interval (attempt + 1) w2)
             else die (RemoteFailed remote_cmd retries) w1)
      else (Inr (), w))"
  by pat_completeness auto
termination
  by (relation "measure (\<lambda>(e, r, ip, c, retries, t, attempt, w). nat (retries + 1 - attempt))")
     auto

declare run_from.simps [simp del]

definition SSHRunner_run :: "env \<Rightarrow> SSHRunner \<Rightarrow> string \<Rightarrow> string \<Rightarrow> int \<Rightarrow> int \<Rightarrow> unit io" where
  "SSHRunner_run e r ip remote_cmd retries retry_interval =
     run_from e r ip remote_cmd retries retry_interval 1"

definition ssh_fstrim :: "env \<Rightarrow> string \<Rightarrow> SSHRunner \<Rightarrow> unit io" where
  "ssh_fstrim e ip runner = SSHRunner_run e runner ip ''fstrim /'' 3 30"

definition ssh_shutdown :: "env \<Rightarrow> string \<Rightarrow> SSHRunner \<Rightarrow> unit io" where
  "ssh_shutdown e ip runner = SSHRunner_run e runner ip ''init 0'' 1 30"

section \<open>Waiting for the VM\<close>

definition settle :: "int \<Rightarrow> unit io" where
  "settle settle_secs = (if settle_secs \<noteq> 0 then sleep settle_secs else return ())"

lemma bind_now:
  assumes "bind m f w = (r, w')"
    and "\<And>r1 w1. m w = (r1, w1) \<Longrightarrow> now w \<le> now w1"
    and "\<And>a w1 r2 w2. f a w1 = (r2, w2) \<Longrightarrow> now w1 \<le> now w2"
  shows "now w \<le> now w'"
proof (cases "m w")
  case (Pair r1 w1)
  then have le1: "now w \<le> now w1" using assms(2) by blast
  show ?thesis
  proof (cases r1)
    case (Inl x)
    with Pair assms(1) have "w' = w1" by (simp add: bind_def)
    with le1 show ?thesis by simp
  next
    case (Inr a)
    with Pair assms(1) have "f a w1 = (r, w')" by (simp add: bind_def)
    then have "now w1 \<le> now w'" using assms(3) by blast
    with le1 show ?thesis by simp
  qed
qed

lemma http_call_now: "http_call e req w = (r, w') \<Longrightarrow> now w \<le> now w'"
  by (auto simp: http_call_def Let_def emit_def)

lemma headers_now: "headers c w = (r, w') \<Longrightarrow> now w \<le> now w'"
  by (auto simp: headers_def die_def raise_def return_def split: if_splits)

lemma get_vm_by_ip_now:
  assumes "get_vm_by_ip e c ip w = (r, w')"
  shows "now w \<le> now w'"
  using assms unfolding get_vm_by_ip_def
proof (rule bind_now)
  fix r1 w1 assume "headers c w = (r1, w1)"
  then show "now w \<le> now w1" by (rule headers_now)
next
  fix a :: unit and w1 r2 w2
  assume "bind (http_call e (GetVmReq ip))
            (\<lambda>r. case r of
                    NoConnection \<Rightarrow> raise (Raised RequestException)
                  | BadStatus \<Rightarrow> raise (Raised HTTPError)
                  | BadBody \<Rightarrow> raise (Raised ValueError)
                  | Body data \<Rightarrow>
                      (case first_inventory data of Inl x \<Rightarrow> raise x | Inr vm \<Rightarrow> return vm))
            w1 = (r2, w2)"
  then show "now w1 \<le> now w2"
  proof (rule bind_now)
    fix r1 w3 assume "http_call e (GetVmReq ip) w1 = (r1, w3)"
    then show "now w1 \<le> now w3" by (rule http_call_now)
  next
    fix a w3 r3 w4
    assume "(case a of
               NoConnection \<Rightarrow> raise (Raised RequestException)
             | BadStatus \<Rightarrow> raise (Raised HTTPError)
             | BadBody \<Rightarrow> raise (Raised ValueError)
             | Body data \<Rightarrow>
                 (case first_inventory data of Inl x \<Rightarrow> raise x | Inr vm \<Rightarrow> return vm))
            w3 = (r3, w4)"
    then show "now w3 \<le> now w4"
      by (auto simp: raise_def return_def split: http_reply.splits sum.splits)
  qed
qed

lemma poll_step:
  assumes "(Inr u, w1) = sleep 3 w" and "(Inr vm, w2) = get_vm_by_ip e c ip w1"
  shows "now w < now w2"
proof -
  from assms(1) have "now w1 = now w + 3"
    by (auto simp: sleep_def emit_def split: if_splits)
  moreover have "now w1 \<le> now w2"
    using get_vm_by_ip_now [of e c ip w1 "Inr vm" w2] assms(2) by simp
  ultimately show ?thesis by simp
qed

text \<open>
  The loop \<^verbatim>\<open>while time.time() < deadline\<close> of \<^verbatim>\<open>ensure_vm_running\<close>. Every turn
  sleeps three seconds before it asks, so the clock passes the deadline.
\<close>

function poll :: "env \<Rightarrow> ZStackClient \<Rightarrow> string \<Rightarrow> int \<Rightarrow> int \<Rightarrow> unit io" where
  "poll e c target_ip settle_secs deadline w =
     (if now w < deadline then
        (case sleep 3 w of
           (Inl x, w1) \<Rightarrow> (Inl x, w1)
         | (Inr _, w1) \<Rightarrow>
             (case get_vm_by_ip e c target_ip w1 of
                (Inl x, w2) \<Rightarrow> (Inl x, w2)
              | (Inr vm, w2) \<Rightarrow>
                  if \<not> truthy vm then poll e c target_ip settle_secs deadline w2
                  else
                    (case dict_get vm ''state'' JNull of
                       Inl x \<Rightarrow> (Inl x, w2)
                     | Inr s \<Rightarrow>
                         (case lower_or_empty s of
                            Inl x \<Rightarrow> (Inl x, w2)
                          | Inr state \<Rightarrow>
                              if state = ''running'' then settle settle_secs w2
                              else poll e c target_ip settle_secs deadline w2))))
      else die NotRunningInTime w)"
  by pat_completeness auto
termination
  by (relation "measure (\<lambda>(e, c, ip, s, deadline, w). nat (deadline - now w))")
     (auto intro: poll_step)

declare poll.simps [simp del]

definition ensure_vm_running ::
  "env \<Rightarrow> ZStackClient \<Rightarrow> string \<Rightarrow> json \<Rightarrow> json \<Rightarrow> int \<Rightarrow> int \<Rightarrow> unit io" where
  "ensure_vm_running e client target_ip vm_uuid initial_state max_wait settle_secs w =
     (case lower_or_empty initial_state of
        Inl x \<Rightarrow> (Inl x, w)
      | Inr state \<Rightarrow>
          if state = ''running'' then settle settle_secs w
          else
            (case start_vm e client vm_uuid w of
               (Inl x, w1) \<Rightarrow> (Inl x, w1)
             | (Inr _, w1) \<Rightarrow> poll e client target_ip settle_secs (now w1 + max_wait) w1))"

section \<open>Converter environment, free space, checksum\<close>

text \<open>
  \<^verbatim>\<open>build_qemu_env\<close>: \<^verbatim>\<open>os.environ.copy()\<close> makes a new dict object; the assignment
  to \<^verbatim>\<open>LD_LIBRARY_PATH\<close> goes to that object. The result is its address.
\<close>

definition library_path :: "string \<Rightarrow> string option \<Rightarrow> string" where
  "library_path lib_path existing =
     (case existing of
        None \<Rightarrow> lib_path
      | Some ex \<Rightarrow> if ex = [] then lib_path else lib_path @ '':'' @ ex)"

definition build_qemu_env :: "string option \<Rightarrow> nat io" where
  "build_qemu_env lib_path w =
     (let a = Suc (allocated w);
          w1 = w\<lparr>heap := (heap w)(a := heap w 0), allocated := a\<rparr>
      in case lib_path of
           None \<Rightarrow> (Inr a, w1)
         | Some lp \<Rightarrow>
             if lp = [] then (Inr a, w1)
             else
               (let existing = map_of (heap w1 a) ''LD_LIBRARY_PATH''
                in (Inr a,
                    w1\<lparr>heap := (heap w1)
                      (a := AList.update ''LD_LIBRARY_PATH'' (library_path lp existing)
                              (heap w1 a))\<rparr>)))"

definition ensure_qemu_available :: "env \<Rightarrow> string \<Rightarrow> nat \<Rightarrow> unit io" where
  "ensure_qemu_available e qemu_img_path qemu_env w =
     (if files w qemu_img_path = None then die QemuNotFound w
      else if \<not> is_executable e qemu_img_path then die QemuNotExecutable w
      else bind (run_cmd e [qemu_img_path, ''--help''] (Some qemu_env)) (\<lambda>_. return ()) w)"

text \<open>\<^verbatim>\<open>ensure_free_space\<close>: \<^verbatim>\<open>if usage.free < required_bytes: die(...)\<close>\<close>

definition free_bytes :: "env \<Rightarrow> world \<Rightarrow> nat" where
  "free_bytes e w = disk_free e (execs w)"

definition ensure_free_space :: "env \<Rightarrow> string \<Rightarrow> int \<Rightarrow> unit io" where
  "ensure_free_space e path required_bytes w =
     (if int (free_bytes e w) < required_bytes
      then die (NotEnoughFreeSpace required_bytes (free_bytes e w)) w
      else return () w)"

definition qemu_img_info :: "env \<Rightarrow> string \<Rightarrow> nat \<Rightarrow> string \<Rightarrow> json io" where
  "qemu_img_info e qemu_img_path qemu_env image_path =
     bind (run_cmd e [qemu_img_path, ''info'', ''--output'', ''json'', image_path]
             (Some qemu_env)) (\<lambda>out.
       case json_loads e out of
         None \<Rightarrow> raise (Raised ValueError)
       | Some v \<Rightarrow> return v)"

definition convert_image ::
  "env \<Rightarrow> string \<Rightarrow> nat \<Rightarrow> string \<Rightarrow> string \<Rightarrow> string \<Rightarrow> string \<Rightarrow> unit io" where
  "convert_image e qemu_img_path qemu_env src dst src_fmt dst_fmt =
     bind (run_cmd e [qemu_img_path, ''convert'', ''-f'', src_fmt, ''-O'', dst_fmt, src, dst]
             (Some qemu_env)) (\<lambda>_. return ())"

text \<open>
  \<^verbatim>\<open>md5_file\<close>: the file is read in chunks of one mebibyte until a read returns nothing;
  the hash object is what has been fed to it so far, \<^verbatim>\<open>update\<close> appends.
\<close>

function chunks_of :: "nat \<Rightarrow> string \<Rightarrow> string list" where
  "chunks_of n bs = (if n = 0 \<or> bs = [] then [] else take n bs # chunks_of n (drop n bs))"
  by pat_completeness auto
termination
  by (relation "measure (\<lambda>(n, bs). length bs)") auto

declare chunks_of.simps [simp del]

definition md5_file :: "env \<Rightarrow> string \<Rightarrow> string io" where
  "md5_file e path w =
     (case files w path of
        None \<Rightarrow> (Inl (Raised OSError), w)
      | Some bytes \<Rightarrow>
          (Inr (md5_hex e (fold (\<lambda>chunk md5. md5 @ chunk) (chunks_of (1024 * 1024) bytes) [])),
           w))"

section \<open>Paths\<close>

text \<open>
  Paths are kept as the strings handed to the operating system; \<^verbatim>\<open>pathlib\<close>'s removal of
  repeated separators and of \<^verbatim>\<open>.\<close> components is not modelled, and only regular files
  exist. \<open>path_join\<close> is \<^verbatim>\<open>dir / name\<close>, \<open>path_name\<close> is \<^verbatim>\<open>.name\<close>, \<open>suffix\<close> is
  \<^verbatim>\<open>.suffix\<close> (from the last dot of the name, unless that dot is its first or last
  character) and \<open>with_suffix\<close> is \<^verbatim>\<open>.with_suffix\<close>.
\<close>

definition path_join :: "string \<Rightarrow> string \<Rightarrow> string" where
  "path_join dir name =
     (if take 1 name = ''/'' then name
      else if dir = ''/'' then dir @ name
      else dir @ ''/'' @ name)"

definition path_name :: "string \<Rightarrow> string" where
  "path_name p = rev (takeWhile (\<lambda>c. c \<noteq> CHR ''/'') (rev p))"

definition suffix :: "string \<Rightarrow> string" where
  "suffix p =
     (let name = path_name p;
          ext = takeWhile (\<lambda>c. c \<noteq> CHR ''.'') (rev name);
          i = length name - length ext - 1
      in if CHR ''.'' \<in> set name \<and> 0 < i \<and> ext \<noteq> [] then drop i name else [])"

definition with_suffix :: "string \<Rightarrow> string \<Rightarrow> exn + string" where
  "with_suffix p sfx =
     (if CHR ''/'' \<in> set sfx \<or> (sfx \<noteq> [] \<and> take 1 sfx \<noteq> ''.'') \<or> sfx = ''.''
         \<or> path_name p = []
      then Inl (Raised ValueError)
      else Inr (take (length p - length (suffix p)) p @ sfx))"

definition path_exists :: "world \<Rightarrow> string \<Rightarrow> bool" where
  "path_exists w p = (files w p \<noteq> None)"

definition stat_size :: "string \<Rightarrow> nat io" where
  "stat_size p w =
     (case files w p of
        None \<Rightarrow> (Inl (Raised OSError), w)
      | Some bytes \<Rightarrow> (Inr (length bytes), w))"

definition write_text :: "env \<Rightarrow> string \<Rightarrow> string \<Rightarrow> unit io" where
  "write_text e p text w =
     (let w1 = emit (WriteText p text) w
      in if write_ok e p then (Inr (), w1\<lparr>files := (files w1)(p \<mapsto> text)\<rparr>)
         else (Inl (Raised OSError), w1))"

text \<open>
  \<^verbatim>\<open>try: qcow2_path.unlink() except Exception: log(warn)\<close>: a failure to delete is only
  logged.
\<close>

definition unlink_quietly :: "env \<Rightarrow> string \<Rightarrow> unit io" where
  "unlink_quietly e p w =
     (let w1 = emit (Unlink p) w
      in if files w1 p \<noteq> None \<and> unlink_ok e p
         then (Inr (), w1\<lparr>files := (files w1)(p := None)\<rparr>)
         else (Inr (), w1))"

text \<open>\<^verbatim>\<open>str.strip()\<close> on the ASCII white space.\<close>

definition is_space :: "char \<Rightarrow> bool" where
  "is_space c = (let n = (of_char c :: nat) in (9 \<le> n \<and> n \<le> 13) \<or> (28 \<le> n \<and> n \<le> 32))"

definition strip :: "string \<Rightarrow> string" where
  "strip s = rev (dropWhile is_space (rev (dropWhile is_space s)))"

definition rstrip_slash :: "string \<Rightarrow> string" where
  "rstrip_slash s = rev (dropWhile (\<lambda>c. c = CHR ''/'') (rev s))"

section \<open>The export pipeline\<close>

record args =
  args_ip :: string
  args_product :: "string option"
  args_ssh_pass :: string

record Config =
  cfg_host :: string
  cfg_username :: string
  cfg_password :: string
  cfg_ssh_user :: string
  cfg_ssh_pass :: string
  cfg_workdir :: string
  cfg_qemu_img :: string
  cfg_lib_path :: "string option"
  cfg_min_free_bytes :: int

definition MIN_FREE_BYTES :: int where
  "MIN_FREE_BYTES = 50 * 1024 * 1024 * 1024"

definition DEFAULT_QEMU_IMG :: "string \<Rightarrow> string" where
  "DEFAULT_QEMU_IMG workdir = path_join (path_join workdir ''bin'') ''qemu-img''"

definition DEFAULT_LIB_PATH :: "string \<Rightarrow> string" where
  "DEFAULT_LIB_PATH workdir = workdir @ ''/lib:/opt/qemu-lib''"

text \<open>
  The configuration \<^verbatim>\<open>main\<close> builds; \<open>workdir\<close> is the directory of the script
  (\<^verbatim>\<open>WORKDIR\<close>).
\<close>

definition make_config :: "string \<Rightarrow> args \<Rightarrow> Config" where
  "make_config workdir a =
     \<lparr>cfg_host = rstrip_slash ''http://localhost:8080/'',
      cfg_username = ''admin'',
      cfg_password = ''password'',
      cfg_ssh_user = ''root'',
      cfg_ssh_pass = args_ssh_pass a,
      cfg_workdir = workdir,
      cfg_qemu_img = DEFAULT_QEMU_IMG workdir,
      cfg_lib_path = Some (DEFAULT_LIB_PATH workdir),
      cfg_min_free_bytes = MIN_FREE_BYTES\<rparr>"

definition require_command :: "env \<Rightarrow> string \<Rightarrow> unit io" where
  "require_command e cmd = (if \<not> which e cmd then die (MissingCommand cmd) else return ())"

text \<open>\<^verbatim>\<open>int(x)\<close> and the formatting of a value inside an f-string.\<close>

definition py_int :: "env \<Rightarrow> json \<Rightarrow> exn + int" where
  "py_int e v =
     (case v of
        JInt i \<Rightarrow> Inr i
      | JBool b \<Rightarrow> Inr (if b then 1 else 0)
      | JStr s \<Rightarrow> (case parse_int e s of None \<Rightarrow> Inl (Raised ValueError) | Some i \<Rightarrow> Inr i)
      | _ \<Rightarrow> Inl (Raised TypeError))"

definition format :: "env \<Rightarrow> json \<Rightarrow> string" where
  "format e v = (case v of JStr s \<Rightarrow> s | _ \<Rightarrow> format_value e v)"

definition product_arg :: "args \<Rightarrow> json" where
  "product_arg a = (case args_product a of None \<Rightarrow> JNull | Some s \<Rightarrow> JStr s)"

text \<open>\<^verbatim>\<open>product_name = args.product or vm.get("name") or "vm_image"\<close>\<close>

definition choose_product_name :: "args \<Rightarrow> json \<Rightarrow> json" where
  "choose_product_name a name = py_or (py_or (product_arg a) name) (JStr ''vm_image'')"

definition qcow2_path_of :: "env \<Rightarrow> Config \<Rightarrow> json \<Rightarrow> string" where
  "qcow2_path_of e cfg product_name =
     path_join (cfg_workdir cfg) (format e product_name @ ''.qcow2'')"

definition vdi_path_of :: "env \<Rightarrow> Config \<Rightarrow> json \<Rightarrow> string" where
  "vdi_path_of e cfg product_name =
     path_join (cfg_workdir cfg) (format e product_name @ ''.vdi'')"

text \<open>
  \<^verbatim>\<open>main\<close> is one function in the source; it is cut here into five parts so that the
  state between them can be named. \<open>finish_export\<close> is lines 343 to 363: the size of
  the intermediate image, the second space check, the conversion to VDI, the checksum and
  its sidecar, and the removal of the intermediate image.
\<close>

definition sidecar_text :: "string \<Rightarrow> string \<Rightarrow> string" where
  "sidecar_text vdi_md5 vdi_path = vdi_md5 @ ''  '' @ path_name vdi_path @ [CHR 0x0A]"

definition finish_export :: "env \<Rightarrow> Config \<Rightarrow> nat \<Rightarrow> string \<Rightarrow> string \<Rightarrow> unit io" where
  "finish_export e cfg qemu_env qcow2_path vdi_path =
     bind (stat_size qcow2_path) (\<lambda>qcow2_size.
     bind (ensure_free_space e (cfg_workdir cfg)
             (max (int qcow2_size) (cfg_min_free_bytes cfg))) (\<lambda>_.
     bind (convert_image e (cfg_qemu_img cfg) qemu_env qcow2_path vdi_path
             ''qcow2'' ''vdi'') (\<lambda>_.
     bind (stat_size vdi_path) (\<lambda>_.
     bind (md5_file e vdi_path) (\<lambda>vdi_md5.
       case with_suffix vdi_path (suffix vdi_path @ ''.md5'') of
         Inl x \<Rightarrow> raise x
       | Inr md5_path \<Rightarrow>
           bind (write_text e md5_path (sidecar_text vdi_md5 vdi_path)) (\<lambda>_.
             unlink_quietly e qcow2_path))))))"

text \<open>Lines 336 to 342: the output paths, the collision check and the first conversion.\<close>

definition export_images :: "env \<Rightarrow> Config \<Rightarrow> nat \<Rightarrow> string \<Rightarrow> json \<Rightarrow> unit io" where
  "export_images e cfg qemu_env install_path product_name w =
     (let qcow2_path = qcow2_path_of e cfg product_name;
          vdi_path = vdi_path_of e cfg product_name
      in if path_exists w qcow2_path \<or> path_exists w vdi_path then die OutputExists w
         else
           bind (convert_image e (cfg_qemu_img cfg) qemu_env install_path qcow2_path
                   ''qcow2'' ''qcow2'') (\<lambda>_.
             finish_export e cfg qemu_env qcow2_path vdi_path) w)"

text \<open>
  Lines 317 to 334: the local path, the running VM, trim and shutdown, the converter and
  the first space checks. The result is the environment built for the converter.
\<close>

definition prepare_export ::
  "env \<Rightarrow> Config \<Rightarrow> ZStackClient \<Rightarrow> args \<Rightarrow> json \<Rightarrow> json \<Rightarrow> string \<Rightarrow> nat io" where
  "prepare_export e cfg client a vm_uuid vm_state install_path w =
     (if \<not> path_exists w install_path then die InstallPathNotFound w
      else
        (let ssh_runner = \<lparr>ssh_user = cfg_ssh_user cfg, ssh_pass = cfg_ssh_pass cfg\<rparr>
         in
           bind (ensure_vm_running e client (args_ip a) vm_uuid (py_or vm_state (JStr []))
                   180 20) (\<lambda>_.
           bind (ssh_fstrim e (args_ip a) ssh_runner) (\<lambda>_.
           bind (ssh_shutdown e (args_ip a) ssh_runner) (\<lambda>_.
           bind (build_qemu_env (cfg_lib_path cfg)) (\<lambda>qemu_env.
           bind (ensure_qemu_available e (cfg_qemu_img cfg) qemu_env) (\<lambda>_.
           bind (qemu_img_info e (cfg_qemu_img cfg) qemu_env install_path) (\<lambda>image_info.
             case dict_get image_info ''actual-size'' (JInt 0) of
               Inl x \<Rightarrow> raise x
             | Inr sz \<Rightarrow>
                 (case py_int e sz of
                    Inl x \<Rightarrow> raise x
                  | Inr actual_size \<Rightarrow>
                      bind (ensure_free_space e (cfg_workdir cfg) (cfg_min_free_bytes cfg))
                        (\<lambda>_ w1.
                           if actual_size \<noteq> 0 \<and> int (free_bytes e w1) < actual_size
                           then die SmallerThanActualSize w1
                           else return qemu_env w1)))))))) w))"

text \<open>Lines 305 to 312: what is read from the VM record; then the two parts above.\<close>

definition export_vm :: "env \<Rightarrow> Config \<Rightarrow> ZStackClient \<Rightarrow> args \<Rightarrow> json \<Rightarrow> unit io" where
  "export_vm e cfg client a vm =
     (case dict_get vm ''uuid'' JNull of
        Inl x \<Rightarrow> raise x
      | Inr vm_uuid \<Rightarrow>
          (case get_root_install_path vm of
             Inl x \<Rightarrow> raise x
           | Inr install_path \<Rightarrow>
               (case dict_get vm ''state'' (JStr []) of
                  Inl x \<Rightarrow> raise x
                | Inr vm_state \<Rightarrow>
                    (case dict_get vm ''name'' JNull of
                       Inl x \<Rightarrow> raise x
                     | Inr name \<Rightarrow>
                         if \<not> truthy vm_uuid \<or> \<not> truthy install_path
                         then die MissingUuidOrInstallPath
                         else
                           (case install_path of
                              JStr p \<Rightarrow>
                                bind (prepare_export e cfg client a vm_uuid vm_state (strip p))
                                  (\<lambda>qemu_env.
                                     export_images e cfg qemu_env (strip p)
                                       (choose_product_name a name))
                            | _ \<Rightarrow> raise (Raised AttributeError))))))"

text \<open>Lines 275 to 303: configuration, required commands, login and lookup.\<close>

definition main :: "env \<Rightarrow> string \<Rightarrow> args \<Rightarrow> unit io" where
  "main e workdir a =
     (let cfg = make_config workdir a;
          client = \<lparr>client_host = rstrip_slash (cfg_host cfg),
                    client_username = cfg_username cfg,
                    client_password = cfg_password cfg,
                    session_uuid = JNull\<rparr>
      in
        bind (require_command e ''ssh'') (\<lambda>_.
        bind (require_command e ''sshpass'') (\<lambda>_.
        bind (login e client) (\<lambda>(session, client).
        bind (get_vm_by_ip e client (args_ip a)) (\<lambda>vm.
          if \<not> truthy vm then die VmNotFound
          else export_vm e cfg client a vm)))))"

section \<open>Sample data\<close>

definition volume :: "string \<Rightarrow> string \<Rightarrow> json" where
  "volume t p = JObj [(''type'', JStr t), (''installPath'', JStr p)]"

definition sample_vm :: "string \<Rightarrow> json" where
  "sample_vm state =
     JObj [(''uuid'', JStr ''u1''), (''name'', JStr ''myvm''), (''state'', JStr state),
           (''allVolumes'',
            JList [volume ''Data'' ''/d0'', volume ''Root'' ''/r1'', volume ''Root'' ''/r2''])]"

text \<open>
  An outside in which everything succeeds and nothing is found, a fresh state, a client that
  has logged in, an inventory answering with a given list of records, and subprocesses of
  which the first few fail.
\<close>

definition default_env :: env where
  "default_env =
     \<lparr>which = (\<lambda>_. True),
      http = (\<lambda>k req. Body (JObj [])),
      http_latency = (\<lambda>_. 0),
      spawn = (\<lambda>k argv. Exited 0 [] None),
      disk_free = (\<lambda>_. 0),
      is_executable = (\<lambda>_. True),
      write_ok = (\<lambda>_. True),
      unlink_ok = (\<lambda>_. True),
      md5_hex = (\<lambda>_. []),
      json_loads = (\<lambda>_. None),
      parse_int = (\<lambda>_. None),
      format_value = (\<lambda>_. [])\<rparr>"

definition world0 :: world where
  "world0 = \<lparr>now = 0, trace = [], requests = 0, execs = 0, files = (\<lambda>_. None),
             heap = (\<lambda>_. []), allocated = 0\<rparr>"

definition logged_in :: ZStackClient where
  "logged_in = \<lparr>client_host = ''http://localhost:8080'', client_username = ''admin'',
     client_password = ''password'', session_uuid = JStr ''s1''\<rparr>"

definition inventory_env :: "json list \<Rightarrow> env" where
  "inventory_env records = default_env\<lparr>http := (\<lambda>k req. Body (JObj [(''inventories'', JList records)]))\<rparr>"

definition root_runner :: SSHRunner where
  "root_runner = \<lparr>ssh_user = ''root'', ssh_pass = ''letsg0''\<rparr>"


text \<open>
  A run that goes through: the VM \<^verbatim>\<open>myvm\<close> is running, its root volume is a local file,
  every command succeeds, the converter leaves an image at its destination and there are
  60 GiB free.
\<close>

definition export_vm_record :: json where
  "export_vm_record =
     JObj [(''uuid'', JStr ''u1''), (''name'', JStr ''myvm''), (''state'', JStr ''Running''),
           (''allVolumes'', JList [volume ''Root'' ''/data/pool/vm1.img''])]"

definition converted :: "string list \<Rightarrow> string option" where
  "converted argv =
     (if take 1 (drop 1 argv) = [''convert''] then
        (if take 1 (drop 5 argv) = [''vdi''] then Some ''vdi image'' else Some ''qcow2 image'')
      else None)"

definition export_env :: env where
  "export_env =
     \<lparr>which = (\<lambda>_. True),
      http = (\<lambda>k req. case req of
                LoginReq \<Rightarrow> Body (JObj [(''inventory'', JObj [(''uuid'', JStr ''s1'')])])
              | GetVmReq ip \<Rightarrow> Body (JObj [(''inventories'', JList [export_vm_record])])
              | StartVmReq u \<Rightarrow> Body (JObj [])),
      http_latency = (\<lambda>_. 1),
      spawn = (\<lambda>k argv. Exited 0 ''{}'' (converted argv)),
      disk_free = (\<lambda>_. 60 * 1024 * 1024 * 1024),
      is_executable = (\<lambda>_. True),
      write_ok = (\<lambda>_. True),
      unlink_ok = (\<lambda>_. True),
      md5_hex = (\<lambda>bytes. if bytes = ''vdi image'' then ''7a67883e36b7c25dbdf01a70e969ac90''
                          else ''d41d8cd98f00b204e9800998ecf8427e''),
      json_loads = (\<lambda>out. Some (JObj [(''actual-size'', JInt 11)])),
      parse_int = (\<lambda>_. None),
      format_value = (\<lambda>_. ''?'')\<rparr>"

definition export_world :: world where
  "export_world =
     \<lparr>now = 0, trace = [], requests = 0, execs = 0,
      files = [''/data/pool/vm1.img'' \<mapsto> ''disk'', ''/opt/export/bin/qemu-img'' \<mapsto> ''elf''],
      heap = (\<lambda>_. [(''PATH'', ''/usr/bin''), (''LD_LIBRARY_PATH'', ''/usr/lib'')]),
      allocated = 0\<rparr>"

definition export_args :: args where
  "export_args = \<lparr>args_ip = ''10.0.0.5'', args_product = None, args_ssh_pass = ''letsg0''\<rparr>"


section \<open>The root volume is the first one tagged Root\<close>

lemma scan_volumes_find:
  "list_all is_dict vols \<Longrightarrow> scan_volumes vols = first_root_install_path vols"
proof (induction vols)
  case Nil
  show ?case by (simp add: first_root_install_path_def)
next
  case (Cons v vols)
  then obtain kvs where v: "v = JObj kvs"
    by (auto simp: is_dict_def split: json.splits)
  from Cons have ih: "scan_volumes vols = first_root_install_path vols" by simp
  show ?case
    using ih
    by (simp add: v first_root_install_path_def is_root_def dict_get_def split: option.splits)
qed

lemma find_append_first:
  "list_all (\<lambda>v. \<not> P v) before \<Longrightarrow> P v \<Longrightarrow> find P (before @ v # rest) = Some v"
  by (induction before) auto

lemma find_none: "list_all (\<lambda>v. \<not> P v) xs \<Longrightarrow> find P xs = None"
  by (induction xs) auto

text \<open>
  C10. For a VM record whose \<^verbatim>\<open>allVolumes\<close> is a list of volume records,
  \<^verbatim>\<open>get_root_install_path\<close> returns the \<^verbatim>\<open>installPath\<close> of the first volume in list
  order whose type is \<^verbatim>\<open>Root\<close>, and \<^verbatim>\<open>None\<close> when no volume has that type. Whatever
  follows the first root volume, further root volumes included, has no influence: that
  there is exactly one root volume is not checked.
\<close>

theorem get_root_install_path_first_root:
  assumes "map_of kvs ''allVolumes'' = Some (JList vols)" and "list_all is_dict vols"
  shows "get_root_install_path (JObj kvs) = first_root_install_path vols
    \<and> (list_all (\<lambda>v. \<not> is_root v) vols \<longrightarrow> get_root_install_path (JObj kvs) = Inr JNull)
    \<and> (\<forall>before v rest.
          vols = before @ v # rest \<and> list_all (\<lambda>v. \<not> is_root v) before \<and> is_root v
          \<longrightarrow> get_root_install_path (JObj kvs) = dict_get v ''installPath'' JNull)"
proof -
  have eq: "get_root_install_path (JObj kvs) = first_root_install_path vols"
    using assms
    by (simp add: get_root_install_path_def dict_get_def iterate_def scan_volumes_find)
  show ?thesis
    by (auto simp: eq first_root_install_path_def find_none find_append_first)
qed

theorem get_root_install_path_first_root_witness:
  "get_root_install_path (sample_vm ''Running'') = Inr (JStr ''/r1'')"
  using get_root_install_path_first_root
    [of "[(''uuid'', JStr ''u1''), (''name'', JStr ''myvm''), (''state'', JStr ''Running''),
          (''allVolumes'',
           JList [volume ''Data'' ''/d0'', volume ''Root'' ''/r1'', volume ''Root'' ''/r2''])]"
        "[volume ''Data'' ''/d0'', volume ''Root'' ''/r1'', volume ''Root'' ''/r2'']"]
  by (simp add: sample_vm_def volume_def is_dict_def is_root_def dict_get_def
      first_root_install_path_def)

section \<open>Lookup by address\<close>

text \<open>
  C5. When the client is logged in and the inventory answers with a list of records,
  \<^verbatim>\<open>get_vm_by_ip\<close> returns \<^verbatim>\<open>None\<close> (and no error) for the empty list and the first
  record of the list otherwise.
\<close>

theorem get_vm_by_ip_first_match:
  assumes "truthy (session_uuid c)"
    and "http e (requests w) (GetVmReq ip) = Body (JObj kvs)"
    and "map_of kvs ''inventories'' = Some (JList records)"
  shows "fst (get_vm_by_ip e c ip w) = Inr (case records of [] \<Rightarrow> JNull | r # _ \<Rightarrow> r)"
  using assms
  by (simp add: get_vm_by_ip_def bind_def headers_def return_def raise_def http_call_def
      first_inventory_def dict_get_def py_or_def index0_def Let_def split: list.splits)

theorem get_vm_by_ip_first_match_witness:
  "fst (get_vm_by_ip (inventory_env []) logged_in ''10.0.0.5'' world0) = Inr JNull
   \<and> fst (get_vm_by_ip (inventory_env [sample_vm ''Stopped'', sample_vm ''Running'']) logged_in ''10.0.0.5'' world0)
       = Inr (sample_vm ''Stopped'')"
  using get_vm_by_ip_first_match [of logged_in "inventory_env []" world0 "''10.0.0.5''" "[(''inventories'', JList [])]" "[]"]
    get_vm_by_ip_first_match [of logged_in "inventory_env [sample_vm ''Stopped'', sample_vm ''Running'']" world0 "''10.0.0.5''"
       "[(''inventories'', JList [sample_vm ''Stopped'', sample_vm ''Running''])]" "[sample_vm ''Stopped'', sample_vm ''Running'']"]
  by (simp add: inventory_env_def default_env_def logged_in_def)

section \<open>Remote execution with retries\<close>



lemma written_ssh [simp]: "written (ssh_argv r ip c) res = None"
  by (simp add: ssh_argv_def)












section \<open>What the steps of the pipeline leave behind\<close>

text \<open>
  \<open>augmented lib inherited\<close> is the environment the converter is to get, in the words of
  the specification: the inherited one with \<^verbatim>\<open>LD_LIBRARY_PATH\<close> set to the bundled
  library path, followed by a colon and the previous value when there was a non-empty one.
  A step \<open>inspects\<close> when it leaves the files and the dict objects as they are and records
  only \<open>quiet\<close> events: sleeps, HTTP requests, and subprocesses that are not conversions
  and are either the remote shell or were given exactly the target environment.
\<close>

lemma fold_chunks: "0 < n \<Longrightarrow> fold (\<lambda>chunk md5. md5 @ chunk) (chunks_of n bs) acc = acc @ bs"
proof (induction n bs arbitrary: acc rule: chunks_of.induct)
  case (1 n bs)
  show ?case
  proof (cases "bs = []")
    case True
    then show ?thesis by (subst chunks_of.simps) simp
  next
    case False
    with 1 have "fold (\<lambda>chunk md5. md5 @ chunk) (chunks_of n (drop n bs)) (acc @ take n bs)
        = (acc @ take n bs) @ drop n bs" by simp
    with False 1(2) show ?thesis by (subst chunks_of.simps) simp
  qed
qed

lemma md5_file_whole:
  "md5_file e p w = (case files w p of None \<Rightarrow> (Inl (Raised OSError), w)
                     | Some bytes \<Rightarrow> (Inr (md5_hex e bytes), w))"
  by (simp add: md5_file_def fold_chunks split: option.splits)

definition is_ssh :: "string list \<Rightarrow> bool" where
  "is_ssh argv = (take 1 argv = [''sshpass''])"

definition is_convert :: "string list \<Rightarrow> bool" where
  "is_convert argv = (take 1 (drop 1 argv) = [''convert''])"

definition augmented :: "string \<Rightarrow> (string \<times> string) list \<Rightarrow> (string \<times> string) list" where
  "augmented lib inherited =
     AList.update ''LD_LIBRARY_PATH''
       (case map_of inherited ''LD_LIBRARY_PATH'' of
          None \<Rightarrow> lib
        | Some existing \<Rightarrow> if existing = [] then lib else lib @ '':'' @ existing)
       inherited"

definition bundled :: "(string \<times> string) list \<Rightarrow> (string \<times> string) list \<Rightarrow> bool" where
  "bundled target environment = (environment = target)"

fun quiet :: "(string \<times> string) list \<Rightarrow> event \<Rightarrow> bool" where
  "quiet target (Sleep n) = True"
| "quiet target (Http req) = True"
| "quiet target (Exec argv environment) =
     (\<not> is_convert argv \<and> (is_ssh argv \<or> bundled target environment))"
| "quiet target (WriteText p t) = False"
| "quiet target (Unlink p) = False"

definition inspects :: "(string \<times> string) list \<Rightarrow> world \<Rightarrow> world \<Rightarrow> bool" where
  "inspects target w w' =
     (files w' = files w \<and> heap w' = heap w \<and> allocated w' = allocated w
      \<and> (\<exists>evs. trace w' = trace w @ evs \<and> list_all (quiet target) evs))"

lemma inspects_refl: "inspects target w w"
  by (simp add: inspects_def)

lemma inspects_trans: "inspects target w w1 \<Longrightarrow> inspects target w1 w2 \<Longrightarrow> inspects target w w2"
  by (auto simp: inspects_def)

lemma bind_inspects:
  assumes "bind m f w = (r, w')"
    and "\<And>r1 w1. m w = (r1, w1) \<Longrightarrow> inspects target w w1"
    and "\<And>a w1. m w = (Inr a, w1) \<Longrightarrow> f a w1 = (r, w') \<Longrightarrow> inspects target w1 w'"
  shows "inspects target w w'"
proof (cases "m w")
  case (Pair r1 w1)
  then have i1: "inspects target w w1" using assms(2) by blast
  show ?thesis
  proof (cases r1)
    case (Inl x)
    with Pair assms(1) have "w' = w1" by (simp add: bind_def)
    with i1 show ?thesis by simp
  next
    case (Inr a)
    with Pair assms(1) have "f a w1 = (r, w')" by (simp add: bind_def)
    with Pair Inr have "inspects target w1 w'" using assms(3) by blast
    with i1 show ?thesis by (rule inspects_trans)
  qed
qed

lemma sleep_inspects: "sleep n w = (r, w') \<Longrightarrow> inspects target w w'"
  by (auto simp: sleep_def inspects_def emit_def split: if_splits)

lemma http_call_inspects: "http_call e req w = (r, w') \<Longrightarrow> inspects target w w'"
  by (auto simp: http_call_def inspects_def emit_def Let_def)

lemma headers_same: "headers c w = (r, w') \<Longrightarrow> w' = w"
  by (auto simp: headers_def die_def raise_def return_def split: if_splits)

lemma get_vm_by_ip_inspects:
  assumes "get_vm_by_ip e c ip w = (r, w')"
  shows "inspects target w w'"
  using assms unfolding get_vm_by_ip_def
proof (rule bind_inspects)
  fix r1 w1 assume "headers c w = (r1, w1)"
  then show "inspects target w w1" using headers_same inspects_refl by metis
next
  fix a :: unit and w1
  assume "bind (http_call e (GetVmReq ip))
            (\<lambda>r. case r of
                    NoConnection \<Rightarrow> raise (Raised RequestException)
                  | BadStatus \<Rightarrow> raise (Raised HTTPError)
                  | BadBody \<Rightarrow> raise (Raised ValueError)
                  | Body data \<Rightarrow>
                      (case first_inventory data of Inl x \<Rightarrow> raise x | Inr vm \<Rightarrow> return vm))
            w1 = (r, w')"
  then show "inspects target w1 w'"
  proof (rule bind_inspects)
    fix r1 w3 assume "http_call e (GetVmReq ip) w1 = (r1, w3)"
    then show "inspects target w1 w3" by (rule http_call_inspects)
  next
    fix a w3
    assume "(case a of
               NoConnection \<Rightarrow> raise (Raised RequestException)
             | BadStatus \<Rightarrow> raise (Raised HTTPError)
             | BadBody \<Rightarrow> raise (Raised ValueError)
             | Body data \<Rightarrow>
                 (case first_inventory data of Inl x \<Rightarrow> raise x | Inr vm \<Rightarrow> return vm))
            w3 = (r, w')"
    then have "w' = w3"
      by (auto simp: raise_def return_def split: http_reply.splits sum.splits)
    then show "inspects target w3 w'" by (simp add: inspects_refl)
  qed
qed

lemma start_vm_inspects:
  assumes "start_vm e c u w = (r, w')"
  shows "inspects target w w'"
  using assms unfolding start_vm_def
proof (rule bind_inspects)
  fix r1 w1 assume "headers c w = (r1, w1)"
  then show "inspects target w w1" using headers_same inspects_refl by metis
next
  fix a :: unit and w1
  assume "bind (http_call e (StartVmReq u))
            (\<lambda>r. case r of
                    NoConnection \<Rightarrow> raise (Raised RequestException)
                  | BadStatus \<Rightarrow> raise (Raised HTTPError)
                  | _ \<Rightarrow> return ())
            w1 = (r, w')"
  then show "inspects target w1 w'"
  proof (rule bind_inspects)
    fix r1 w3 assume "http_call e (StartVmReq u) w1 = (r1, w3)"
    then show "inspects target w1 w3" by (rule http_call_inspects)
  next
    fix a w3
    assume "(case a of
               NoConnection \<Rightarrow> raise (Raised RequestException)
             | BadStatus \<Rightarrow> raise (Raised HTTPError)
             | _ \<Rightarrow> return ())
            w3 = (r, w')"
    then have "w' = w3"
      by (auto simp: raise_def return_def split: http_reply.splits)
    then show "inspects target w3 w'" by (simp add: inspects_refl)
  qed
qed

lemma settle_inspects: "settle s w = (r, w') \<Longrightarrow> inspects target w w'"
  by (auto simp: settle_def return_def inspects_refl dest: sleep_inspects split: if_splits)

lemma poll_inspects: "poll e c ip s deadline w = (r, w') \<Longrightarrow> inspects target w w'"
proof (induction e c ip s deadline w rule: poll.induct)
  case (1 e c ip s deadline w)
  show ?case
  proof (cases "now w < deadline")
    case False
    with "1.prems" have "w' = w" by (subst (asm) poll.simps) (simp add: die_def raise_def)
    then show ?thesis by (simp add: inspects_refl)
  next
    case True
    note lt = True
    obtain w1 where sl: "sleep 3 w = (Inr (), w1)" by (simp add: sleep_def)
    then have i1: "inspects target w w1" by (rule sleep_inspects)
    obtain r2 w2 where g: "get_vm_by_ip e c ip w1 = (r2, w2)" by (cases "get_vm_by_ip e c ip w1")
    then have i2: "inspects target w1 w2" by (rule get_vm_by_ip_inspects)
    have i12: "inspects target w w2" using i1 i2 by (rule inspects_trans)
    show ?thesis
    proof (cases r2)
      case (Inl x)
      with "1.prems" lt sl g have "w' = w2" by (subst (asm) poll.simps) simp
      with i12 show ?thesis by simp
    next
      case (Inr vm)
      with g have g': "get_vm_by_ip e c ip w1 = (Inr vm, w2)" by simp
      show ?thesis
      proof (cases "truthy vm")
        case False
        with "1.prems" lt sl g' have pr: "poll e c ip s deadline w2 = (r, w')"
          by (subst (asm) poll.simps) simp
        have "inspects target w2 w'"
          by (rule "1.IH"(1) [OF lt sl [symmetric] refl g' [symmetric] refl False pr])
        with i12 show ?thesis by (rule inspects_trans)
      next
        case True
        note tv = True
        show ?thesis
        proof (cases "dict_get vm ''state'' JNull")
          case (Inl x)
          with "1.prems" lt sl g' tv have "w' = w2"
            by (subst (asm) poll.simps) simp
          with i12 show ?thesis by simp
        next
          case (Inr st)
          note st = Inr
          show ?thesis
          proof (cases "lower_or_empty st")
            case (Inl x)
            with "1.prems" lt sl g' tv st have "w' = w2"
              by (subst (asm) poll.simps) simp
            with i12 show ?thesis by simp
          next
            case (Inr state)
            note state = Inr
            show ?thesis
            proof (cases "state = ''running''")
              case True
              with "1.prems" lt sl g' tv st state
              have "settle s w2 = (r, w')" by (subst (asm) poll.simps) simp
              then have "inspects target w2 w'" by (rule settle_inspects)
              with i12 show ?thesis by (rule inspects_trans)
            next
              case False
              with "1.prems" lt sl g' tv st state
              have pr: "poll e c ip s deadline w2 = (r, w')" by (subst (asm) poll.simps) simp
              have "\<not> \<not> truthy vm" using tv by simp
              have "inspects target w2 w'"
                by (rule "1.IH"(2) [OF lt sl [symmetric] refl g' [symmetric] refl
                      \<open>\<not> \<not> truthy vm\<close> st state False pr])
              with i12 show ?thesis by (rule inspects_trans)
            qed
          qed
        qed
      qed
    qed
  qed
qed


lemma ensure_vm_running_inspects:
  assumes "ensure_vm_running e c ip u st mw ss w = (r, w')"
  shows "inspects target w w'"
proof (cases "lower_or_empty st")
  case (Inl x)
  with assms have "w' = w" by (simp add: ensure_vm_running_def)
  then show ?thesis by (simp add: inspects_refl)
next
  case (Inr state)
  show ?thesis
  proof (cases "state = ''running''")
    case True
    with assms Inr have "settle ss w = (r, w')" by (simp add: ensure_vm_running_def)
    then show ?thesis by (rule settle_inspects)
  next
    case False
    obtain r1 w1 where sv: "start_vm e c u w = (r1, w1)" by (cases "start_vm e c u w")
    then have i1: "inspects target w w1" by (rule start_vm_inspects)
    show ?thesis
    proof (cases r1)
      case (Inl x)
      with assms Inr False sv have "w' = w1" by (simp add: ensure_vm_running_def)
      with i1 show ?thesis by simp
    next
      case (Inr u1)
      with assms \<open>lower_or_empty st = Inr state\<close> False sv
      have "poll e c ip ss (now w1 + mw) w1 = (r, w')" by (simp add: ensure_vm_running_def)
      then have "inspects target w1 w'" by (rule poll_inspects)
      with i1 show ?thesis by (rule inspects_trans)
    qed
  qed
qed

lemma written_not_convert: "\<not> is_convert argv \<Longrightarrow> written argv res = None"
  by (cases "(argv, res)" rule: written.cases) (auto simp: is_convert_def)

lemma run_cmd_effect:
  assumes "run_cmd e cmd envref w = (r, w')"
  shows "heap w' = heap w" and "allocated w' = allocated w"
    and "trace w' = trace w @ [Exec cmd (heap w (case envref of None \<Rightarrow> 0 | Some a \<Rightarrow> a))]"
    and "\<not> is_convert cmd \<Longrightarrow> files w' = files w"
  using assms
  by (auto simp: run_cmd_def Let_def emit_def written_not_convert
      split: proc_result.splits option.splits if_splits)

lemma run_cmd_inspects:
  assumes "run_cmd e cmd envref w = (r, w')" and "\<not> is_convert cmd"
    and "is_ssh cmd \<or> bundled target (heap w (case envref of None \<Rightarrow> 0 | Some a \<Rightarrow> a))"
  shows "inspects target w w'"
  using run_cmd_effect [OF assms(1)] assms(2,3) by (simp add: inspects_def)

lemma ssh_argv_quiet: "is_ssh (ssh_argv r ip c)" "\<not> is_convert (ssh_argv r ip c)"
  by (simp_all add: is_ssh_def is_convert_def ssh_argv_def)

lemma run_from_inspects:
  "run_from e r ip c retries t attempt w = (res, w') \<Longrightarrow> inspects target w w'"
proof (induction e r ip c retries t attempt w rule: run_from.induct)
  case (1 e r ip c retries t attempt w)
  show ?case
  proof (cases "attempt < retries + 1")
    case False
    with "1.prems" have "w' = w" by (subst (asm) run_from.simps) simp
    then show ?thesis by (simp add: inspects_refl)
  next
    case True
    note lt = True
    obtain r1 w1 where rc: "run_cmd e (ssh_argv r ip c) None w = (r1, w1)"
      by (cases "run_cmd e (ssh_argv r ip c) None w")
    then have i1: "inspects target w w1"
      by (rule run_cmd_inspects) (simp_all add: ssh_argv_quiet)
    show ?thesis
    proof (cases r1)
      case (Inr out)
      with "1.prems" lt rc have "w' = w1" by (subst (asm) run_from.simps) simp
      with i1 show ?thesis by simp
    next
      case (Inl x)
      show ?thesis
      proof (cases x)
        case (SystemExit f)
        with "1.prems" lt rc Inl have "w' = w1" by (subst (asm) run_from.simps) simp
        with i1 show ?thesis by simp
      next
        case (Raised y)
        with rc Inl have rc': "run_cmd e (ssh_argv r ip c) None w = (Inl (Raised y), w1)" by simp
        show ?thesis
        proof (cases "attempt < retries")
          case False
          with "1.prems" lt rc' have "w' = w1"
            by (subst (asm) run_from.simps) (simp add: die_def raise_def)
          with i1 show ?thesis by simp
        next
          case True
          obtain r2 w2 where sl: "sleep t w1 = (r2, w2)" by (cases "sleep t w1")
          then have i2: "inspects target w1 w2" by (rule sleep_inspects)
          have i12: "inspects target w w2" using i1 i2 by (rule inspects_trans)
          show ?thesis
          proof (cases r2)
            case (Inl z)
            with "1.prems" lt rc' True sl have "w' = w2" by (subst (asm) run_from.simps) simp
            with i12 show ?thesis by simp
          next
            case (Inr u)
            with "1.prems" lt rc' True sl
            have pr: "run_from e r ip c retries t (attempt + 1) w2 = (res, w')"
              by (subst (asm) run_from.simps) simp
            from sl Inr have sl': "sleep t w1 = (Inr u, w2)" by simp
            have "inspects target w2 w'"
              by (rule "1.IH" [OF lt rc' [symmetric] refl refl True sl' [symmetric] refl pr])
            with i12 show ?thesis by (rule inspects_trans)
          qed
        qed
      qed
    qed
  qed
qed


lemma bindE:
  assumes "bind m f w = (r, w')"
  obtains (fail) x where "m w = (Inl x, w')" and "r = Inl x"
    | (ok) a w1 where "m w = (Inr a, w1)" and "f a w1 = (r, w')"
proof (cases "m w")
  case (Pair r1 w1)
  show ?thesis
  proof (cases r1)
    case (Inl x)
    with Pair assms have "m w = (Inl x, w')" "r = Inl x" by (auto simp: bind_def)
    then show ?thesis by (rule fail)
  next
    case (Inr a)
    with Pair assms have "m w = (Inr a, w1)" "f a w1 = (r, w')" by (auto simp: bind_def)
    then show ?thesis by (rule ok)
  qed
qed

lemma SSHRunner_run_inspects:
  "SSHRunner_run e r ip c n t w = (res, w') \<Longrightarrow> inspects target w w'"
  unfolding SSHRunner_run_def by (rule run_from_inspects)

lemma augmented_library_path:
  "AList.update ''LD_LIBRARY_PATH''
     (library_path lib (map_of inherited ''LD_LIBRARY_PATH'')) inherited
   = augmented lib inherited"
  by (simp add: augmented_def library_path_def split: option.splits)

lemma build_qemu_env_effect:
  assumes "build_qemu_env lpo w = (r, w')"
  shows "r = Inr (Suc (allocated w))" and "files w' = files w" and "trace w' = trace w"
    and "b \<noteq> Suc (allocated w) \<Longrightarrow> heap w' b = heap w b"
    and "lpo = Some lib \<Longrightarrow> lib \<noteq> [] \<Longrightarrow>
         bundled (augmented lib (heap w 0)) (heap w' (Suc (allocated w)))"
  using assms
  by (auto simp: build_qemu_env_def Let_def bundled_def augmented_library_path
      split: option.splits if_splits)

definition prepared :: "(string \<times> string) list \<Rightarrow> world \<Rightarrow> exn + nat \<Rightarrow> world \<Rightarrow> bool" where
  "prepared target w r w' =
     (files w' = files w \<and> heap w' 0 = heap w 0
      \<and> (\<exists>evs. trace w' = trace w @ evs \<and> list_all (quiet target) evs)
      \<and> (case r of Inl x \<Rightarrow> True | Inr qe \<Rightarrow> qe \<noteq> 0 \<and> bundled target (heap w' qe)))"

lemma inspects_prepared: "inspects target w w' \<Longrightarrow> prepared target w (Inl x) w'"
  by (auto simp: inspects_def prepared_def)

lemma ensure_qemu_available_inspects:
  assumes "ensure_qemu_available e q qe w = (r, w')" and "bundled target (heap w qe)"
  shows "inspects target w w'"
proof (cases "files w q = None \<or> \<not> is_executable e q")
  case True
  with assms(1) have "w' = w"
    by (auto simp: ensure_qemu_available_def die_def raise_def split: if_splits)
  then show ?thesis by (simp add: inspects_refl)
next
  case False
  with assms(1) have "bind (run_cmd e [q, ''--help''] (Some qe)) (\<lambda>_. return ()) w = (r, w')"
    by (auto simp: ensure_qemu_available_def)
  then show ?thesis
  proof (rule bind_inspects)
    fix r1 w1 assume "run_cmd e [q, ''--help''] (Some qe) w = (r1, w1)"
    then show "inspects target w w1"
      by (rule run_cmd_inspects) (simp_all add: is_convert_def assms(2))
  next
    fix a :: string and w1 assume "return () w1 = (r, w')"
    then show "inspects target w1 w'" by (simp add: return_def inspects_refl)
  qed
qed

lemma qemu_img_info_inspects:
  assumes "qemu_img_info e q qe p w = (r, w')" and "bundled target (heap w qe)"
  shows "inspects target w w'"
  using assms(1) unfolding qemu_img_info_def
proof (rule bind_inspects)
  fix r1 w1 assume "run_cmd e [q, ''info'', ''--output'', ''json'', p] (Some qe) w = (r1, w1)"
  then show "inspects target w w1"
    by (rule run_cmd_inspects) (simp_all add: is_convert_def assms(2))
next
  fix a w1
  assume "(case json_loads e a of None \<Rightarrow> raise (Raised ValueError) | Some v \<Rightarrow> return v) w1
          = (r, w')"
  then have "w' = w1" by (auto simp: raise_def return_def split: option.splits)
  then show "inspects target w1 w'" by (simp add: inspects_refl)
qed

lemma ensure_free_space_same: "ensure_free_space e p n w = (r, w') \<Longrightarrow> w' = w"
  by (auto simp: ensure_free_space_def die_def raise_def return_def split: if_splits)

lemma prepare_export_found:
  "path_exists w install_path \<Longrightarrow>
   prepare_export e cfg client a vm_uuid vm_state install_path w =
     bind (ensure_vm_running e client (args_ip a) vm_uuid (py_or vm_state (JStr [])) 180 20)
       (\<lambda>_.
     bind (ssh_fstrim e (args_ip a) \<lparr>ssh_user = cfg_ssh_user cfg, ssh_pass = cfg_ssh_pass cfg\<rparr>)
       (\<lambda>_.
     bind (ssh_shutdown e (args_ip a) \<lparr>ssh_user = cfg_ssh_user cfg, ssh_pass = cfg_ssh_pass cfg\<rparr>)
       (\<lambda>_.
     bind (build_qemu_env (cfg_lib_path cfg)) (\<lambda>qemu_env.
     bind (ensure_qemu_available e (cfg_qemu_img cfg) qemu_env) (\<lambda>_.
     bind (qemu_img_info e (cfg_qemu_img cfg) qemu_env install_path) (\<lambda>image_info.
       case dict_get image_info ''actual-size'' (JInt 0) of
         Inl x \<Rightarrow> raise x
       | Inr sz \<Rightarrow>
           (case py_int e sz of
              Inl x \<Rightarrow> raise x
            | Inr actual_size \<Rightarrow>
                bind (ensure_free_space e (cfg_workdir cfg) (cfg_min_free_bytes cfg))
                  (\<lambda>_ w1.
                     if actual_size \<noteq> 0 \<and> int (free_bytes e w1) < actual_size
                     then die SmallerThanActualSize w1
                     else return qemu_env w1))))))))
       w"
  by (simp add: prepare_export_def Let_def)

lemma prepare_export_prepared:
  assumes "prepare_export e cfg c a u st p w = (r, w')"
    and lib: "cfg_lib_path cfg = Some lib" "lib \<noteq> []"
    and tg: "target = augmented lib (heap w 0)"
  shows "prepared target w r w'"
proof (cases "path_exists w p")
  case False
  with assms(1) have "w' = w" "r = Inl (SystemExit InstallPathNotFound)"
    by (simp_all add: prepare_export_def die_def raise_def)
  then show ?thesis by (simp add: inspects_prepared inspects_refl)
next
  case True
  from assms(1) show ?thesis
    unfolding prepare_export_found [OF True]
  proof (cases rule: bindE)
    case (fail x)
    then show ?thesis by (simp add: inspects_prepared ensure_vm_running_inspects)
  next
    case (ok u1 w1)
    from ok(1) have i1: "inspects target w w1" by (rule ensure_vm_running_inspects)
    from ok(2) show ?thesis
    proof (cases rule: bindE)
      case (fail x)
      from fail(1) have "inspects target w1 w'"
        unfolding ssh_fstrim_def by (rule SSHRunner_run_inspects)
      with i1 fail(2) show ?thesis by (simp add: inspects_prepared inspects_trans [of target w w1 w'])
    next
      case (ok u2 w2)
      from ok(1) have "inspects target w1 w2"
        unfolding ssh_fstrim_def by (rule SSHRunner_run_inspects)
      with i1 have i2: "inspects target w w2" by (rule inspects_trans)
      from ok(2) show ?thesis
      proof (cases rule: bindE)
        case (fail x)
        from fail(1) have "inspects target w2 w'"
          unfolding ssh_shutdown_def by (rule SSHRunner_run_inspects)
        with i2 fail(2) show ?thesis
          by (simp add: inspects_prepared inspects_trans [of target w w2 w'])
      next
        case (ok u3 w3)
        from ok(1) have "inspects target w2 w3"
          unfolding ssh_shutdown_def by (rule SSHRunner_run_inspects)
        with i2 have i3: "inspects target w w3" by (rule inspects_trans)
        from ok(2) show ?thesis
        proof (cases rule: bindE)
          case (fail x)
          with build_qemu_env_effect(1) [OF fail(1)] show ?thesis by simp
        next
          case (ok qe w4)
          note b = build_qemu_env_effect [OF ok(1)]
          from b(1) have qe: "qe = Suc (allocated w3)" by simp
          have bq: "bundled target (heap w4 qe)"
            using b(5) [OF lib] qe i3 tg by (simp add: inspects_def)
          have h0: "heap w4 0 = heap w3 0" using b(4) [of 0] by simp
          from ok(2) show ?thesis
          proof (cases rule: bindE)
            case (fail x)
            from fail(1) bq have i5: "inspects target w4 w'" by (rule ensure_qemu_available_inspects)
            with i3 b(2,3) h0 fail(2) show ?thesis
              by (auto simp: inspects_def prepared_def)
          next
            case (ok u5 w5)
            from ok(1) bq have i5: "inspects target w4 w5" by (rule ensure_qemu_available_inspects)
            then have bq5: "bundled target (heap w5 qe)" using bq by (simp add: inspects_def)
            from ok(2) show ?thesis
            proof (cases rule: bindE)
              case (fail x)
              from fail(1) bq5 have "inspects target w5 w'" by (rule qemu_img_info_inspects)
              with i5 have "inspects target w4 w'" by (rule inspects_trans)
              with i3 b(2,3) h0 fail(2) show ?thesis
                by (auto simp: inspects_def prepared_def)
            next
              case (ok info w6)
              from ok(1) bq5 have "inspects target w5 w6" by (rule qemu_img_info_inspects)
              with i5 have i6: "inspects target w4 w6" by (rule inspects_trans)
              then have bq6: "bundled target (heap w6 qe)" using bq by (simp add: inspects_def)
              from ok(2) have "w' = w6 \<and> (\<forall>q. r = Inr q \<longrightarrow> q = qe)"
                by (auto simp: raise_def return_def die_def bind_def ensure_free_space_def
                    split: sum.splits if_splits)
              with i6 i3 b(2,3) h0 bq6 qe show ?thesis
                by (auto simp: inspects_def prepared_def split: sum.splits)
            qed
          qed
        qed
      qed
    qed
  qed
qed


text \<open>
  After the collision check the pipeline converts and writes; what is left of the invariant
  is that the dict objects stay as they are and that every subprocess is \<open>allowed\<close>: it is
  the remote shell or it was given exactly the target environment.
\<close>

fun allowed :: "(string \<times> string) list \<Rightarrow> event \<Rightarrow> bool" where
  "allowed target (Exec argv environment) = (is_ssh argv \<or> bundled target environment)"
| "allowed target ev = True"

definition proceeds :: "(string \<times> string) list \<Rightarrow> world \<Rightarrow> world \<Rightarrow> bool" where
  "proceeds target w w' =
     (heap w' = heap w \<and> (\<exists>evs. trace w' = trace w @ evs \<and> list_all (allowed target) evs))"

lemma quiet_allowed: "quiet target ev \<Longrightarrow> allowed target ev"
  by (cases ev) auto

lemma proceeds_refl: "proceeds target w w"
  by (simp add: proceeds_def)

lemma proceeds_trans: "proceeds target w w1 \<Longrightarrow> proceeds target w1 w2 \<Longrightarrow> proceeds target w w2"
  by (auto simp: proceeds_def)

lemma inspects_proceeds: "inspects target w w' \<Longrightarrow> proceeds target w w'"
  by (auto simp: inspects_def proceeds_def list_all_iff quiet_allowed)

lemma bind_proceeds:
  assumes "bind m f w = (r, w')"
    and "\<And>r1 w1. m w = (r1, w1) \<Longrightarrow> proceeds target w w1"
    and "\<And>a w1. m w = (Inr a, w1) \<Longrightarrow> f a w1 = (r, w') \<Longrightarrow> proceeds target w1 w'"
  shows "proceeds target w w'"
  using assms(1)
proof (cases rule: bindE)
  case (fail x)
  then show ?thesis using assms(2) by blast
next
  case (ok a w1)
  then show ?thesis using assms(2,3) proceeds_trans by blast
qed

lemma convert_image_proceeds:
  assumes "convert_image e q qe src dst sf df w = (r, w')" and "bundled target (heap w qe)"
  shows "proceeds target w w'"
  using assms(1) unfolding convert_image_def
proof (rule bind_proceeds)
  fix r1 w1
  assume "run_cmd e [q, ''convert'', ''-f'', sf, ''-O'', df, src, dst] (Some qe) w = (r1, w1)"
  from run_cmd_effect(1,3) [OF this] assms(2) show "proceeds target w w1"
    by (simp add: proceeds_def)
next
  fix a :: string and w1 assume "return () w1 = (r, w')"
  then show "proceeds target w1 w'" by (simp add: return_def proceeds_refl)
qed

lemma stat_size_same: "stat_size p w = (r, w') \<Longrightarrow> w' = w"
  by (auto simp: stat_size_def split: option.splits)

lemma md5_file_same: "md5_file e p w = (r, w') \<Longrightarrow> w' = w"
  by (auto simp: md5_file_def split: option.splits)

lemma write_text_proceeds: "write_text e p t w = (r, w') \<Longrightarrow> proceeds target w w'"
  by (auto simp: write_text_def Let_def emit_def proceeds_def split: if_splits)

lemma unlink_quietly_proceeds: "unlink_quietly e p w = (r, w') \<Longrightarrow> proceeds target w w'"
  by (auto simp: unlink_quietly_def Let_def emit_def proceeds_def split: if_splits)

lemma finish_export_proceeds:
  assumes "finish_export e cfg qe qcow2 vdi w = (r, w')" and bq: "bundled target (heap w qe)"
  shows "proceeds target w w'"
  using assms(1) unfolding finish_export_def
proof (cases rule: bindE)
  case (fail x)
  then show ?thesis using stat_size_same proceeds_refl by metis
next
  case (ok sz w1)
  then have w1: "w1 = w" using stat_size_same by blast
  from ok(2) show ?thesis
  proof (cases rule: bindE)
    case (fail x)
    then show ?thesis using ensure_free_space_same w1 proceeds_refl by metis
  next
    case (ok u2 w2)
    then have w2: "w2 = w" using ensure_free_space_same w1 by blast
    from ok(2) show ?thesis
    proof (cases rule: bindE)
      case (fail x)
      then show ?thesis using convert_image_proceeds bq w2 by blast
    next
      case (ok u3 w3)
      then have p3: "proceeds target w w3" using convert_image_proceeds bq w2 by blast
      from ok(2) show ?thesis
      proof (cases rule: bindE)
        case (fail x)
        then show ?thesis using stat_size_same p3 by metis
      next
        case (ok u4 w4)
        then have w4: "w4 = w3" using stat_size_same by blast
        from ok(2) show ?thesis
        proof (cases rule: bindE)
          case (fail x)
          then show ?thesis using md5_file_same p3 w4 by metis
        next
          case (ok digest w5)
          then have w5: "w5 = w3" using md5_file_same w4 by blast
          show ?thesis
          proof (cases "with_suffix vdi (suffix vdi @ ''.md5'')")
            case (Inl x)
            with ok(2) have "w' = w5" by (simp add: raise_def)
            with p3 w5 show ?thesis by simp
          next
            case (Inr md5_path)
            with ok(2) have "bind (write_text e md5_path (sidecar_text digest vdi))
                (\<lambda>_. unlink_quietly e qcow2) w5 = (r, w')" by simp
            then have "proceeds target w5 w'"
              by (rule bind_proceeds) (erule write_text_proceeds, erule unlink_quietly_proceeds)
            with p3 w5 show ?thesis using proceeds_trans by blast
          qed
        qed
      qed
    qed
  qed
qed

lemma export_images_proceeds:
  assumes "export_images e cfg qe p pn w = (r, w')" and bq: "bundled target (heap w qe)"
  shows "proceeds target w w'"
proof (cases "path_exists w (qcow2_path_of e cfg pn) \<or> path_exists w (vdi_path_of e cfg pn)")
  case True
  with assms(1) have "w' = w" by (simp add: export_images_def die_def raise_def)
  then show ?thesis by (simp add: proceeds_refl)
next
  case False
  with assms(1) have "bind (convert_image e (cfg_qemu_img cfg) qe p (qcow2_path_of e cfg pn)
       ''qcow2'' ''qcow2'')
     (\<lambda>_. finish_export e cfg qe (qcow2_path_of e cfg pn) (vdi_path_of e cfg pn)) w = (r, w')"
    by (simp add: export_images_def Let_def)
  then show ?thesis
  proof (cases rule: bindE)
    case (fail x)
    then show ?thesis using convert_image_proceeds bq by blast
  next
    case (ok u1 w1)
    then have p1: "proceeds target w w1" using convert_image_proceeds bq by blast
    then have "bundled target (heap w1 qe)" using bq by (simp add: proceeds_def)
    with ok(2) have "proceeds target w1 w'" by (rule finish_export_proceeds)
    with p1 show ?thesis by (rule proceeds_trans)
  qed
qed


lemma require_command_same: "require_command e c w = (r, w') \<Longrightarrow> w' = w"
  by (auto simp: require_command_def die_def raise_def return_def split: if_splits)

lemma login_inspects:
  assumes "login e c w = (r, w')"
  shows "inspects target w w'"
  using assms unfolding login_def
proof (rule bind_inspects)
  fix r1 w1 assume "http_call e LoginReq w = (r1, w1)"
  then show "inspects target w w1" by (rule http_call_inspects)
next
  fix a w1
  assume "(case a of
             NoConnection \<Rightarrow> raise (Raised RequestException)
           | BadStatus \<Rightarrow> raise (Raised HTTPError)
           | BadBody \<Rightarrow> raise (Raised ValueError)
           | Body body \<Rightarrow>
               (case subscript body ''inventory'' of
                  Inl x \<Rightarrow> raise x
                | Inr inventory \<Rightarrow>
                    (case subscript inventory ''uuid'' of
                       Inl x \<Rightarrow> raise x
                     | Inr u \<Rightarrow> return (u, c\<lparr>session_uuid := u\<rparr>)))) w1 = (r, w')"
  then have "w' = w1"
    by (auto simp: raise_def return_def split: http_reply.splits sum.splits)
  then show "inspects target w1 w'" by (simp add: inspects_refl)
qed

lemma main_cases:
  assumes "main e workdir a w = (r, w')"
  obtains (early) x where "r = Inl x" and "inspects target w w'"
    | (located) client vm w0 where "inspects target w w0" and "truthy vm"
        and "export_vm e (make_config workdir a) client a vm w0 = (r, w')"
  using assms unfolding main_def Let_def
proof (cases rule: bindE)
  case (fail x)
  then show ?thesis using early require_command_same inspects_refl by metis
next
  case (ok u1 w1)
  then have w1: "w1 = w" using require_command_same by blast
  from ok(2) show ?thesis
  proof (cases rule: bindE)
    case (fail x)
    then show ?thesis using early require_command_same inspects_refl w1 by metis
  next
    case (ok u2 w2)
    then have w2: "w2 = w" using require_command_same w1 by blast
    from ok(2) show ?thesis
    proof (cases rule: bindE)
      case (fail x)
      then show ?thesis using early login_inspects w2 by metis
    next
      case (ok sc w3)
      then have i3: "inspects target w w3" using login_inspects w2 by metis
      obtain session client where sc: "sc = (session, client)" by (cases sc)
      from ok(2) show ?thesis unfolding sc prod.case
      proof (cases rule: bindE)
        case (fail x)
        then have "inspects target w3 w'" using get_vm_by_ip_inspects by metis
        with i3 have "inspects target w w'" by (rule inspects_trans)
        with fail(2) show ?thesis by (rule early)
      next
        case (ok vm w4)
        then have "inspects target w3 w4" using get_vm_by_ip_inspects by metis
        with i3 have i4: "inspects target w w4" by (rule inspects_trans)
        show ?thesis
        proof (cases "truthy vm")
          case False
          with ok(2) have "r = Inl (SystemExit VmNotFound)" "w' = w4"
            by (simp_all add: die_def raise_def)
          with i4 show ?thesis using early by blast
        next
          case True
          with ok(2) have "export_vm e (make_config workdir a) client a vm w4 = (r, w')"
            by simp
          with i4 True show ?thesis by (rule located)
        qed
      qed
    qed
  qed
qed

lemma export_vm_cases:
  assumes "export_vm e cfg client a vm w = (r, w')"
  obtains (early) x where "r = Inl x" and "w' = w"
    | (valid) vm_uuid vm_state p name where
        "dict_get vm ''uuid'' JNull = Inr vm_uuid" and "truthy vm_uuid"
        and "get_root_install_path vm = Inr (JStr p)" and "p \<noteq> []"
        and "dict_get vm ''state'' (JStr []) = Inr vm_state"
        and "dict_get vm ''name'' JNull = Inr name"
        and "bind (prepare_export e cfg client a vm_uuid vm_state (strip p))
               (\<lambda>qemu_env. export_images e cfg qemu_env (strip p) (choose_product_name a name))
               w = (r, w')"
proof (cases "\<exists>vm_uuid p vm_state name. dict_get vm ''uuid'' JNull = Inr vm_uuid \<and> truthy vm_uuid
     \<and> get_root_install_path vm = Inr (JStr p) \<and> p \<noteq> []
     \<and> dict_get vm ''state'' (JStr []) = Inr vm_state \<and> dict_get vm ''name'' JNull = Inr name")
  case True
  then obtain vm_uuid p vm_state name where h: "dict_get vm ''uuid'' JNull = Inr vm_uuid"
    "truthy vm_uuid" "get_root_install_path vm = Inr (JStr p)" "p \<noteq> []"
    "dict_get vm ''state'' (JStr []) = Inr vm_state" "dict_get vm ''name'' JNull = Inr name"
    by blast
  with assms have "bind (prepare_export e cfg client a vm_uuid vm_state (strip p))
               (\<lambda>qemu_env. export_images e cfg qemu_env (strip p) (choose_product_name a name))
               w = (r, w')"
    by (simp add: export_vm_def)
  with h show ?thesis by (rule valid)
next
  case False
  with assms have "(\<exists>x. r = Inl x) \<and> w' = w"
    by (auto simp: export_vm_def raise_def die_def split: sum.splits if_splits json.splits)
  then show ?thesis using early by blast
qed


definition run_ok :: "(string \<times> string) list \<Rightarrow> world \<Rightarrow> world \<Rightarrow> bool" where
  "run_ok target w w' =
     (heap w' 0 = heap w 0 \<and> (\<exists>evs. trace w' = trace w @ evs \<and> list_all (allowed target) evs))"

lemma run_ok_trans: "run_ok target w w1 \<Longrightarrow> run_ok target w1 w2 \<Longrightarrow> run_ok target w w2"
  by (auto simp: run_ok_def)

lemma proceeds_run_ok: "proceeds target w w' \<Longrightarrow> run_ok target w w'"
  by (auto simp: proceeds_def run_ok_def)

lemma prepared_run_ok: "prepared target w r w' \<Longrightarrow> run_ok target w w'"
  by (auto simp: prepared_def run_ok_def list_all_iff quiet_allowed)

lemma make_config_lib_path:
  "cfg_lib_path (make_config workdir a) = Some (DEFAULT_LIB_PATH workdir)"
  "DEFAULT_LIB_PATH workdir \<noteq> []"
  by (simp_all add: make_config_def DEFAULT_LIB_PATH_def)

lemma qemu_img_not_ssh: "DEFAULT_QEMU_IMG workdir \<noteq> ''sshpass''"
proof
  assume "DEFAULT_QEMU_IMG workdir = ''sshpass''"
  then have "last (DEFAULT_QEMU_IMG workdir) = last ''sshpass''" by simp
  then show False by (simp add: DEFAULT_QEMU_IMG_def path_join_def split: if_splits)
qed

lemma main_run_ok:
  assumes "main e workdir a w = (r, w')"
  shows "run_ok (augmented (DEFAULT_LIB_PATH workdir) (heap w 0)) w w'"
  using assms
proof (cases rule: main_cases [where target = "augmented (DEFAULT_LIB_PATH workdir) (heap w 0)"])
  case (early x)
  then show ?thesis by (simp add: proceeds_run_ok inspects_proceeds)
next
  case (located client vm w0)
  let ?T = "augmented (DEFAULT_LIB_PATH workdir) (heap w 0)"
  from located(1) have r0: "run_ok ?T w w0"
    by (simp add: proceeds_run_ok inspects_proceeds)
  from located(1) have tg: "?T = augmented (DEFAULT_LIB_PATH workdir) (heap w0 0)"
    by (simp add: inspects_def)
  from located(3) show ?thesis
  proof (cases rule: export_vm_cases)
    case (early x)
    with r0 show ?thesis by simp
  next
    case (valid vm_uuid vm_state p name)
    from valid(7) show ?thesis
    proof (cases rule: bindE)
      case (fail x)
      from prepare_export_prepared [OF fail(1) make_config_lib_path tg]
      have "run_ok ?T w0 w'" by (rule prepared_run_ok)
      with r0 show ?thesis by (rule run_ok_trans)
    next
      case (ok qe w1)
      note pr = prepare_export_prepared [OF ok(1) make_config_lib_path tg]
      then have r1: "run_ok ?T w0 w1" by (rule prepared_run_ok)
      from pr have "bundled ?T (heap w1 qe)" by (simp add: prepared_def)
      with ok(2) have "proceeds ?T w1 w'" by (rule export_images_proceeds)
      then have "run_ok ?T w1 w'" by (rule proceeds_run_ok)
      with r0 r1 show ?thesis using run_ok_trans by blast
    qed
  qed
qed

section \<open>The sample run\<close>

text \<open>
  The definitions the simplifier unfolds to run the pipeline on given data, and the run of
  \<open>export_env\<close> from \<open>export_world\<close>: it ends normally with both images converted, the
  sidecar written and the intermediate image removed.
\<close>

lemmas io_defs = bind_def return_def raise_def die_def emit_def sleep_def Let_def
lemmas model_defs =
  main_def make_config_def require_command_def login_def http_call_def subscript_def
  get_vm_by_ip_def headers_def first_inventory_def dict_get_def py_or_def index0_def
  export_vm_def get_root_install_path_def iterate_def volume_def
  prepare_export_def path_exists_def ensure_vm_running_def lower_or_empty_def lower_def
  lower_char_def settle_def ssh_fstrim_def ssh_shutdown_def SSHRunner_run_def run_from.simps
  run_cmd_def ssh_argv_def build_qemu_env_def library_path_def ensure_qemu_available_def
  qemu_img_info_def py_int_def ensure_free_space_def free_bytes_def export_images_def
  qcow2_path_of_def vdi_path_of_def format_def choose_product_name_def product_arg_def
  path_join_def convert_image_def finish_export_def stat_size_def md5_file_whole
  with_suffix_def suffix_def path_name_def write_text_def sidecar_text_def unlink_quietly_def
  strip_def is_space_def rstrip_slash_def DEFAULT_QEMU_IMG_def DEFAULT_LIB_PATH_def
  MIN_FREE_BYTES_def

lemmas sample_defs = export_env_def export_world_def export_args_def export_vm_record_def
  converted_def


definition bundled_environment :: "(string \<times> string) list" where
  "bundled_environment =
     [(''PATH'', ''/usr/bin''),
      (''LD_LIBRARY_PATH'', ''/opt/export/lib:/opt/qemu-lib:/usr/lib'')]"

definition inherited_environment :: "(string \<times> string) list" where
  "inherited_environment = [(''PATH'', ''/usr/bin''), (''LD_LIBRARY_PATH'', ''/usr/lib'')]"

definition sample_trace :: "event list" where
  "sample_trace =
     [Http LoginReq, Http (GetVmReq ''10.0.0.5''), Sleep 20,
      Exec (ssh_argv root_runner ''10.0.0.5'' ''fstrim /'') inherited_environment,
      Exec (ssh_argv root_runner ''10.0.0.5'' ''init 0'') inherited_environment,
      Exec [''/opt/export/bin/qemu-img'', ''--help''] bundled_environment,
      Exec [''/opt/export/bin/qemu-img'', ''info'', ''--output'', ''json'',
            ''/data/pool/vm1.img''] bundled_environment,
      Exec [''/opt/export/bin/qemu-img'', ''convert'', ''-f'', ''qcow2'', ''-O'', ''qcow2'',
            ''/data/pool/vm1.img'', ''/opt/export/myvm.qcow2''] bundled_environment,
      Exec [''/opt/export/bin/qemu-img'', ''convert'', ''-f'', ''qcow2'', ''-O'', ''vdi'',
            ''/opt/export/myvm.qcow2'', ''/opt/export/myvm.vdi''] bundled_environment,
      WriteText ''/opt/export/myvm.vdi.md5''
        (''7a67883e36b7c25dbdf01a70e969ac90  myvm.vdi'' @ [CHR 0x0A]),
      Unlink ''/opt/export/myvm.qcow2'']"

lemma sample_run:
  "\<exists>w'. main export_env ''/opt/export'' export_args export_world = (Inr (), w')
     \<and> trace w' = sample_trace
     \<and> heap w' 0 = inherited_environment
     \<and> files w' ''/opt/export/myvm.vdi'' = Some ''vdi image''
     \<and> files w' ''/opt/export/myvm.qcow2'' = None
     \<and> files w' ''/opt/export/myvm.vdi.md5''
         = Some (''7a67883e36b7c25dbdf01a70e969ac90  myvm.vdi'' @ [CHR 0x0A])"
  by (simp add: io_defs model_defs sample_defs sample_trace_def root_runner_def
      bundled_environment_def inherited_environment_def)

section \<open>The environment of the converter\<close>

text \<open>
  C8. \<^verbatim>\<open>build_qemu_env\<close> leaves \<^verbatim>\<open>os.environ\<close> (the dict object at address 0) as it
  was, and so does a whole run of \<^verbatim>\<open>main\<close>. The dict it returns is a new object in which
  \<^verbatim>\<open>LD_LIBRARY_PATH\<close> is the library path given, alone when \<^verbatim>\<open>os.environ\<close> had no
  or an empty value for it and otherwise followed by a colon and that value, and in which
  every other variable is as in \<^verbatim>\<open>os.environ\<close>. Every subprocess of a run whose program
  is the conversion binary was given exactly that environment for the bundled library path:
  the inherited one with the bundled path put before the previous \<^verbatim>\<open>LD_LIBRARY_PATH\<close>.
\<close>

theorem converter_environment:
  "heap (snd (build_qemu_env lib_path w)) 0 = heap w 0
   \<and> (lib \<noteq> [] \<longrightarrow>
        (\<exists>qemu_env w1. build_qemu_env (Some lib) w = (Inr qemu_env, w1) \<and> qemu_env \<noteq> 0
           \<and> map_of (heap w1 qemu_env) ''LD_LIBRARY_PATH''
               = Some (case map_of (heap w 0) ''LD_LIBRARY_PATH'' of
                         None \<Rightarrow> lib
                       | Some existing \<Rightarrow> if existing = [] then lib else lib @ '':'' @ existing)
           \<and> (\<forall>k. k \<noteq> ''LD_LIBRARY_PATH'' \<longrightarrow>
                 map_of (heap w1 qemu_env) k = map_of (heap w 0) k)))
   \<and> (main e workdir a w = (r, w') \<longrightarrow>
        heap w' 0 = heap w 0
        \<and> (\<exists>evs. trace w' = trace w @ evs
             \<and> (\<forall>argv environment.
                   Exec argv environment \<in> set evs \<and> take 1 argv = [DEFAULT_QEMU_IMG workdir]
                   \<longrightarrow> environment = augmented (DEFAULT_LIB_PATH workdir) (heap w 0)
                       \<and> map_of environment ''LD_LIBRARY_PATH''
                           = Some (case map_of (heap w 0) ''LD_LIBRARY_PATH'' of
                                     None \<Rightarrow> DEFAULT_LIB_PATH workdir
                                   | Some existing \<Rightarrow>
                                       if existing = [] then DEFAULT_LIB_PATH workdir
                                       else DEFAULT_LIB_PATH workdir @ '':'' @ existing)
                       \<and> (\<forall>k. k \<noteq> ''LD_LIBRARY_PATH'' \<longrightarrow>
                             map_of environment k = map_of (heap w 0) k))))"
proof (intro conjI impI)
  obtain r1 w1 where b: "build_qemu_env lib_path w = (r1, w1)"
    by (cases "build_qemu_env lib_path w")
  from build_qemu_env_effect(4) [OF b, of 0]
  show "heap (snd (build_qemu_env lib_path w)) 0 = heap w 0"
    by (simp add: b)
next
  assume lib: "lib \<noteq> []"
  then show "\<exists>qemu_env w1. build_qemu_env (Some lib) w = (Inr qemu_env, w1) \<and> qemu_env \<noteq> 0
           \<and> map_of (heap w1 qemu_env) ''LD_LIBRARY_PATH''
               = Some (case map_of (heap w 0) ''LD_LIBRARY_PATH'' of
                         None \<Rightarrow> lib
                       | Some existing \<Rightarrow> if existing = [] then lib else lib @ '':'' @ existing)
           \<and> (\<forall>k. k \<noteq> ''LD_LIBRARY_PATH'' \<longrightarrow>
                 map_of (heap w1 qemu_env) k = map_of (heap w 0) k)"
    by (simp add: build_qemu_env_def Let_def library_path_def update_conv'
        split: option.splits)
next
  assume "main e workdir a w = (r, w')"
  then have "run_ok (augmented (DEFAULT_LIB_PATH workdir) (heap w 0)) w w'"
    by (rule main_run_ok)
  then show "heap w' 0 = heap w 0" by (simp add: run_ok_def)
next
  assume "main e workdir a w = (r, w')"
  then have "run_ok (augmented (DEFAULT_LIB_PATH workdir) (heap w 0)) w w'"
    by (rule main_run_ok)
  then obtain evs where evs: "trace w' = trace w @ evs"
    "list_all (allowed (augmented (DEFAULT_LIB_PATH workdir) (heap w 0))) evs"
    by (auto simp: run_ok_def)
  have "environment = augmented (DEFAULT_LIB_PATH workdir) (heap w 0)
        \<and> map_of environment ''LD_LIBRARY_PATH''
            = Some (case map_of (heap w 0) ''LD_LIBRARY_PATH'' of
                      None \<Rightarrow> DEFAULT_LIB_PATH workdir
                    | Some existing \<Rightarrow>
                        if existing = [] then DEFAULT_LIB_PATH workdir
                        else DEFAULT_LIB_PATH workdir @ '':'' @ existing)
        \<and> (\<forall>k. k \<noteq> ''LD_LIBRARY_PATH'' \<longrightarrow> map_of environment k = map_of (heap w 0) k)"
    if "Exec argv environment \<in> set evs" "take 1 argv = [DEFAULT_QEMU_IMG workdir]"
    for argv environment
  proof -
    from that(1) evs(2)
    have "is_ssh argv \<or> bundled (augmented (DEFAULT_LIB_PATH workdir) (heap w 0)) environment"
      by (auto simp: list_all_iff)
    moreover from that(2) have "\<not> is_ssh argv" using qemu_img_not_ssh by (auto simp: is_ssh_def)
    ultimately have "environment = augmented (DEFAULT_LIB_PATH workdir) (heap w 0)"
      by (simp add: bundled_def)
    then show ?thesis by (simp add: augmented_def update_conv')
  qed
  with evs(1) show "\<exists>evs. trace w' = trace w @ evs
             \<and> (\<forall>argv environment.
                   Exec argv environment \<in> set evs \<and> take 1 argv = [DEFAULT_QEMU_IMG workdir]
                   \<longrightarrow> environment = augmented (DEFAULT_LIB_PATH workdir) (heap w 0)
                       \<and> map_of environment ''LD_LIBRARY_PATH''
                           = Some (case map_of (heap w 0) ''LD_LIBRARY_PATH'' of
                                     None \<Rightarrow> DEFAULT_LIB_PATH workdir
                                   | Some existing \<Rightarrow>
                                       if existing = [] then DEFAULT_LIB_PATH workdir
                                       else DEFAULT_LIB_PATH workdir @ '':'' @ existing)
                       \<and> (\<forall>k. k \<noteq> ''LD_LIBRARY_PATH'' \<longrightarrow>
                             map_of environment k = map_of (heap w 0) k))" by blast
qed

theorem converter_environment_witness:
  "\<exists>w'. snd (main export_env ''/opt/export'' export_args export_world) = w'
     \<and> heap w' 0 = heap export_world 0
     \<and> Exec [''/opt/export/bin/qemu-img'', ''--help''] bundled_environment \<in> set (trace w')
     \<and> bundled_environment = augmented ''/opt/export/lib:/opt/qemu-lib'' inherited_environment
     \<and> map_of bundled_environment ''LD_LIBRARY_PATH''
         = Some ''/opt/export/lib:/opt/qemu-lib:/usr/lib''
     \<and> map_of bundled_environment ''PATH'' = map_of inherited_environment ''PATH''"
proof -
  from sample_run obtain w' where
    run: "main export_env ''/opt/export'' export_args export_world = (Inr (), w')"
    and tr: "trace w' = sample_trace" by blast
  from converter_environment [of None export_world "''x''" export_env "''/opt/export''"
      export_args "Inr ()" w'] run
  obtain evs where h: "heap w' 0 = heap export_world 0"
    and evs: "trace w' = trace export_world @ evs"
    and b: "\<forall>argv environment. Exec argv environment \<in> set evs
          \<and> take 1 argv = [DEFAULT_QEMU_IMG ''/opt/export'']
          \<longrightarrow> environment = augmented (DEFAULT_LIB_PATH ''/opt/export'') (heap export_world 0)
              \<and> map_of environment ''LD_LIBRARY_PATH''
                  = Some (case map_of (heap export_world 0) ''LD_LIBRARY_PATH'' of
                            None \<Rightarrow> DEFAULT_LIB_PATH ''/opt/export''
                          | Some existing \<Rightarrow>
                              if existing = [] then DEFAULT_LIB_PATH ''/opt/export''
                              else DEFAULT_LIB_PATH ''/opt/export'' @ '':'' @ existing)
              \<and> (\<forall>k. k \<noteq> ''LD_LIBRARY_PATH'' \<longrightarrow>
                    map_of environment k = map_of (heap export_world 0) k)"
    by blast
  from evs tr have e: "evs = sample_trace" by (simp add: export_world_def)
  have m: "Exec [''/opt/export/bin/qemu-img'', ''--help''] bundled_environment \<in> set evs"
    by (simp add: e sample_trace_def)
  have q: "take 1 [''/opt/export/bin/qemu-img'', ''--help''] = [DEFAULT_QEMU_IMG ''/opt/export'']"
    by (simp add: DEFAULT_QEMU_IMG_def path_join_def)
  have
    "bundled_environment = augmented (DEFAULT_LIB_PATH ''/opt/export'') (heap export_world 0)"
    and "map_of bundled_environment ''LD_LIBRARY_PATH''
           = Some (case map_of (heap export_world 0) ''LD_LIBRARY_PATH'' of
                     None \<Rightarrow> DEFAULT_LIB_PATH ''/opt/export''
                   | Some existing \<Rightarrow>
                       if existing = [] then DEFAULT_LIB_PATH ''/opt/export''
                       else DEFAULT_LIB_PATH ''/opt/export'' @ '':'' @ existing)"
    and "map_of bundled_environment ''PATH'' = map_of (heap export_world 0) ''PATH''"
    using b [rule_format, of "[''/opt/export/bin/qemu-img'', ''--help'']" bundled_environment]
      m q by simp_all
  then have "bundled_environment
        = augmented ''/opt/export/lib:/opt/qemu-lib'' inherited_environment"
    and "map_of bundled_environment ''LD_LIBRARY_PATH''
         = Some ''/opt/export/lib:/opt/qemu-lib:/usr/lib''"
    and "map_of bundled_environment ''PATH'' = map_of inherited_environment ''PATH''"
    by (simp_all add: DEFAULT_LIB_PATH_def export_world_def inherited_environment_def)
  with h m e tr run show ?thesis by simp
qed

section \<open>Existing output files\<close>

text \<open>
  An event is \<open>harmless\<close> when it is a sleep, an HTTP request or a subprocess that is not a
  conversion; a state is \<open>untouched\<close> when the files are as before and only harmless
  events were added. \<open>collision_world\<close> is the sample state with a VDI file of the chosen
  name already there.
\<close>

fun harmless :: "event \<Rightarrow> bool" where
  "harmless (Sleep n) = True"
| "harmless (Http req) = True"
| "harmless (Exec argv environment) = (\<not> is_convert argv)"
| "harmless (WriteText p t) = False"
| "harmless (Unlink p) = False"

lemma quiet_harmless: "quiet lp ev \<Longrightarrow> harmless ev"
  by (cases ev) auto

lemma run_cmd_raises: "run_cmd e cmd envref w = (Inl x, w') \<Longrightarrow> \<exists>y. x = Raised y"
  by (auto simp: run_cmd_def Let_def split: proc_result.splits if_splits)

lemma convert_image_raises:
  assumes "convert_image e q qe src dst sf df w = (Inl x, w')"
  shows "\<exists>y. x = Raised y"
  using assms unfolding convert_image_def
proof (cases rule: bindE)
  case (fail x')
  then show ?thesis using run_cmd_raises by blast
next
  case (ok a w1)
  then show ?thesis by (simp add: return_def)
qed

lemma finish_export_exit:
  assumes "finish_export e cfg qe qcow2 vdi w = (Inl (SystemExit f), w')"
  shows "f \<noteq> OutputExists"
  using assms unfolding finish_export_def
proof (cases rule: bindE)
  case (fail x)
  then show ?thesis by (auto simp: stat_size_def split: option.splits)
next
  case (ok sz w1)
  from ok(2) show ?thesis
  proof (cases rule: bindE)
    case (fail x)
    then show ?thesis
      by (auto simp: ensure_free_space_def die_def raise_def return_def split: if_splits)
  next
    case (ok u2 w2)
    from ok(2) show ?thesis
    proof (cases rule: bindE)
      case (fail x)
      then show ?thesis using convert_image_raises by blast
    next
      case (ok u3 w3)
      from ok(2) show ?thesis
      proof (cases rule: bindE)
        case (fail x)
        then show ?thesis by (auto simp: stat_size_def split: option.splits)
      next
        case (ok u4 w4)
        from ok(2) show ?thesis
        proof (cases rule: bindE)
          case (fail x)
          then show ?thesis by (auto simp: md5_file_def split: option.splits)
        next
          case (ok digest w5)
          show ?thesis
          proof (cases "with_suffix vdi (suffix vdi @ ''.md5'')")
            case (Inl x)
            with ok(2) show ?thesis
              by (auto simp: raise_def with_suffix_def split: if_splits)
          next
            case (Inr md5_path)
            with ok(2) have "bind (write_text e md5_path (sidecar_text digest vdi))
                (\<lambda>_. unlink_quietly e qcow2) w5 = (Inl (SystemExit f), w')" by simp
            then show ?thesis
            proof (cases rule: bindE)
              case (fail x)
              then show ?thesis by (auto simp: write_text_def Let_def split: if_splits)
            next
              case (ok u6 w6)
              then show ?thesis by (auto simp: unlink_quietly_def Let_def split: if_splits)
            qed
          qed
        qed
      qed
    qed
  qed
qed

lemma export_images_collision:
  assumes "export_images e cfg qe p pn w = (Inl (SystemExit OutputExists), w')"
  shows "w' = w"
proof (cases "path_exists w (qcow2_path_of e cfg pn) \<or> path_exists w (vdi_path_of e cfg pn)")
  case True
  with assms show ?thesis by (simp add: export_images_def die_def raise_def)
next
  case False
  with assms have "bind (convert_image e (cfg_qemu_img cfg) qe p (qcow2_path_of e cfg pn)
       ''qcow2'' ''qcow2'')
     (\<lambda>_. finish_export e cfg qe (qcow2_path_of e cfg pn) (vdi_path_of e cfg pn)) w
     = (Inl (SystemExit OutputExists), w')"
    by (simp add: export_images_def Let_def)
  then show ?thesis
  proof (cases rule: bindE)
    case (fail x)
    then show ?thesis using convert_image_raises by blast
  next
    case (ok u1 w1)
    then show ?thesis using finish_export_exit by blast
  qed
qed

definition untouched :: "world \<Rightarrow> world \<Rightarrow> bool" where
  "untouched w w' =
     (files w' = files w \<and> (\<exists>evs. trace w' = trace w @ evs \<and> list_all harmless evs))"

lemma untouched_trans: "untouched w w1 \<Longrightarrow> untouched w1 w2 \<Longrightarrow> untouched w w2"
  by (auto simp: untouched_def)

lemma inspects_untouched: "inspects lp w w' \<Longrightarrow> untouched w w'"
  by (auto simp: inspects_def untouched_def list_all_iff intro: quiet_harmless)

lemma prepared_untouched: "prepared lp w r w' \<Longrightarrow> untouched w w'"
  by (auto simp: prepared_def untouched_def list_all_iff intro: quiet_harmless)

definition collision_world :: world where
  "collision_world = export_world\<lparr>files := (files export_world)(''/opt/export/myvm.vdi'' \<mapsto> ''old'')\<rparr>"

lemma collision_run:
  "\<exists>w'. main export_env ''/opt/export'' export_args collision_world
         = (Inl (SystemExit OutputExists), w')
     \<and> trace w' = take 7 sample_trace
     \<and> files w' ''/opt/export/myvm.vdi'' = Some ''old''"
  by (simp add: io_defs model_defs sample_defs sample_trace_def root_runner_def
      bundled_environment_def inherited_environment_def collision_world_def)

text \<open>
  C2. When at the collision check the intermediate or the final output path exists, the
  pipeline exits there with the collision error and the state is the one it found. A run of
  \<^verbatim>\<open>main\<close> that ends with the collision error has modified no file and has started no
  conversion: all it did was sleep, send HTTP requests and run subprocesses other than
  conversions.
\<close>

theorem output_collision_aborts:
  "(path_exists w1 (qcow2_path_of e cfg product_name)
      \<or> path_exists w1 (vdi_path_of e cfg product_name)
    \<longrightarrow> export_images e cfg qemu_env install_path product_name w1
          = (Inl (SystemExit OutputExists), w1))
   \<and> (main e workdir a w = (Inl (SystemExit OutputExists), w')
      \<longrightarrow> files w' = files w
          \<and> (\<exists>evs. trace w' = trace w @ evs \<and> list_all harmless evs))"
proof (intro conjI impI)
  assume "path_exists w1 (qcow2_path_of e cfg product_name)
      \<or> path_exists w1 (vdi_path_of e cfg product_name)"
  then show "export_images e cfg qemu_env install_path product_name w1
          = (Inl (SystemExit OutputExists), w1)"
    by (simp add: export_images_def die_def raise_def)
next
  assume m: "main e workdir a w = (Inl (SystemExit OutputExists), w')"
  have "untouched w w'"
    using m
  proof (cases rule: main_cases [where target = "augmented (DEFAULT_LIB_PATH workdir) (heap w 0)"])
    case (early x)
    then show ?thesis by (simp add: inspects_untouched)
  next
    case (located client vm w0)
    from located(1) have u0: "untouched w w0" by (rule inspects_untouched)
    from located(3) show ?thesis
    proof (cases rule: export_vm_cases)
      case (early x)
      with u0 show ?thesis by simp
    next
      case (valid vm_uuid vm_state p name)
      from valid(7) show ?thesis
      proof (cases rule: bindE)
        case (fail x)
        from prepare_export_prepared [OF fail(1) make_config_lib_path refl]
        have "untouched w0 w'" by (rule prepared_untouched)
        with u0 show ?thesis by (rule untouched_trans)
      next
        case (ok qe w1)
        from prepare_export_prepared [OF ok(1) make_config_lib_path refl]
        have u1: "untouched w0 w1" by (rule prepared_untouched)
        from ok(2) have "w' = w1" by (rule export_images_collision)
        with u0 u1 show ?thesis using untouched_trans by blast
      qed
    qed
  qed
  then show "files w' = files w" and "\<exists>evs. trace w' = trace w @ evs \<and> list_all harmless evs"
    by (simp_all add: untouched_def)
qed


theorem output_collision_aborts_witness:
  "export_images export_env (make_config ''/opt/export'' export_args) 1 ''/data/pool/vm1.img''
       (JStr ''myvm'') collision_world
     = (Inl (SystemExit OutputExists), collision_world)
   \<and> (\<exists>w'. main export_env ''/opt/export'' export_args collision_world
               = (Inl (SystemExit OutputExists), w')
          \<and> files w' = files collision_world
          \<and> list_all harmless (trace w'))"
proof -
  from collision_run obtain w' where
    run: "main export_env ''/opt/export'' export_args collision_world
            = (Inl (SystemExit OutputExists), w')" by blast
  have c: "path_exists collision_world
             (vdi_path_of export_env (make_config ''/opt/export'' export_args) (JStr ''myvm''))"
    by (simp add: path_exists_def vdi_path_of_def make_config_def format_def path_join_def
        collision_world_def)
  from output_collision_aborts [of collision_world export_env
      "make_config ''/opt/export'' export_args" "JStr ''myvm''" 1 "''/data/pool/vm1.img''"
      "''/opt/export''" export_args collision_world w'] c run
  show ?thesis by (auto simp: collision_world_def export_world_def)
qed

section \<open>Free space\<close>

text \<open>
  \<open>staged_world\<close> is the sample state with the intermediate image in place;
  \<open>low_space_env\<close> has one byte less than 50 GiB free.
\<close>

lemma convert_image_trace:
  assumes "convert_image e q qe src dst sf df w = (r, w')"
  shows "trace w' = trace w @ [Exec [q, ''convert'', ''-f'', sf, ''-O'', df, src, dst] (heap w qe)]"
  using assms unfolding convert_image_def
proof (cases rule: bindE)
  case (fail x)
  from run_cmd_effect(3) [OF fail(1)] show ?thesis by simp
next
  case (ok out w1)
  from run_cmd_effect(3) [OF ok(1)] ok(2) show ?thesis by (simp add: return_def)
qed

lemma write_text_trace: "write_text e p t w = (r, w') \<Longrightarrow> trace w' = trace w @ [WriteText p t]"
  by (auto simp: write_text_def Let_def emit_def split: if_splits)

lemma unlink_quietly_trace: "unlink_quietly e p w = (r, w') \<Longrightarrow> trace w' = trace w @ [Unlink p]"
  by (auto simp: unlink_quietly_def Let_def emit_def split: if_splits)

lemma finish_export_converts:
  assumes "finish_export e cfg qe qcow2 vdi w = (r, w')" and f: "files w qcow2 = Some bytes"
    and sp: "max (int (length bytes)) (cfg_min_free_bytes cfg) \<le> int (free_bytes e w)"
  shows "\<exists>evs. trace w' = trace w @
           Exec [cfg_qemu_img cfg, ''convert'', ''-f'', ''qcow2'', ''-O'', ''vdi'', qcow2, vdi]
             (heap w qe) # evs"
  using assms(1) unfolding finish_export_def
proof (cases rule: bindE)
  case (fail x)
  with f show ?thesis by (simp add: stat_size_def)
next
  case (ok sz w1)
  with f have w1: "w1 = w" and sz: "sz = length bytes" by (simp_all add: stat_size_def)
  from ok(2) show ?thesis
  proof (cases rule: bindE)
    case (fail x)
    with sp w1 sz show ?thesis
      by (auto simp: ensure_free_space_def die_def raise_def return_def split: if_splits)
  next
    case (ok u2 w2)
    then have w2: "w2 = w" using ensure_free_space_same w1 by blast
    from ok(2) show ?thesis
    proof (cases rule: bindE)
      case (fail x)
      from convert_image_trace [OF fail(1)] w2 show ?thesis by simp
    next
      case (ok u3 w3)
      from convert_image_trace [OF ok(1)] w2
      have t3: "trace w3 = trace w @
           [Exec [cfg_qemu_img cfg, ''convert'', ''-f'', ''qcow2'', ''-O'', ''vdi'', qcow2, vdi]
             (heap w qe)]" by simp
      from ok(2) show ?thesis
      proof (cases rule: bindE)
        case (fail x)
        then have "w' = w3" using stat_size_same by blast
        with t3 show ?thesis by simp
      next
        case (ok u4 w4)
        then have w4: "w4 = w3" using stat_size_same by blast
        from ok(2) show ?thesis
        proof (cases rule: bindE)
          case (fail x)
          then have "w' = w3" using md5_file_same w4 by blast
          with t3 show ?thesis by simp
        next
          case (ok digest w5)
          then have w5: "w5 = w3" using md5_file_same w4 by blast
          show ?thesis
          proof (cases "with_suffix vdi (suffix vdi @ ''.md5'')")
            case (Inl x)
            with ok(2) have "w' = w5" by (simp add: raise_def)
            with t3 w5 show ?thesis by simp
          next
            case (Inr md5_path)
            with ok(2) have "bind (write_text e md5_path (sidecar_text digest vdi))
                (\<lambda>_. unlink_quietly e qcow2) w5 = (r, w')" by simp
            then show ?thesis
            proof (cases rule: bindE)
              case (fail x)
              from write_text_trace [OF fail(1)] t3 w5 show ?thesis by simp
            next
              case (ok u6 w6)
              from write_text_trace [OF ok(1)] unlink_quietly_trace [OF ok(2)] t3 w5
              show ?thesis by simp
            qed
          qed
        qed
      qed
    qed
  qed
qed

definition staged_world :: world where
  "staged_world =
     export_world\<lparr>files := (files export_world)(''/opt/export/myvm.qcow2'' \<mapsto> ''qcow2 image'')\<rparr>"

definition low_space_env :: env where
  "low_space_env = export_env\<lparr>disk_free := (\<lambda>_. 50 * 1024 * 1024 * 1024 - 1)\<rparr>"

lemma sample_free_bytes:
  "free_bytes export_env w = 60 * 1024 * 1024 * 1024"
  "free_bytes low_space_env w = 50 * 1024 * 1024 * 1024 - 1"
  by (simp_all add: free_bytes_def low_space_env_def export_env_def)

lemma sample_config:
  "cfg_min_free_bytes (make_config ''/opt/export'' export_args) = 50 * 1024 * 1024 * 1024"
  "cfg_qemu_img (make_config ''/opt/export'' export_args) = ''/opt/export/bin/qemu-img''"
  by (simp_all add: make_config_def MIN_FREE_BYTES_def DEFAULT_QEMU_IMG_def path_join_def)

lemma staged_world_simps:
  "files staged_world ''/opt/export/myvm.qcow2'' = Some ''qcow2 image''"
  "heap staged_world k = inherited_environment"
  "trace staged_world = []"
  by (simp_all add: staged_world_def export_world_def inherited_environment_def)

text \<open>
  C6. \<^verbatim>\<open>ensure_free_space\<close> exits through \<^verbatim>\<open>die\<close> exactly when the free bytes are
  strictly fewer than the required bytes, and changes nothing. After the first conversion,
  with the intermediate image of \<open>length bytes\<close> bytes in place, the required amount is the
  larger of that size and the configured minimum, which \<^verbatim>\<open>main\<close> sets to 50 GiB: with
  less free space the pipeline exits with nothing done, otherwise the next thing it does is
  the conversion to VDI.
\<close>

theorem free_space_checks:
  "ensure_free_space e path required_bytes w =
     (if int (free_bytes e w) < required_bytes
      then (Inl (SystemExit (NotEnoughFreeSpace required_bytes (free_bytes e w))), w)
      else (Inr (), w))
   \<and> (files w qcow2 = Some bytes \<longrightarrow>
        (int (free_bytes e w) < max (int (length bytes)) (cfg_min_free_bytes cfg) \<longrightarrow>
           finish_export e cfg qemu_env qcow2 vdi w =
             (Inl (SystemExit (NotEnoughFreeSpace
                (max (int (length bytes)) (cfg_min_free_bytes cfg)) (free_bytes e w))), w))
        \<and> (max (int (length bytes)) (cfg_min_free_bytes cfg) \<le> int (free_bytes e w) \<longrightarrow>
             (\<exists>evs. trace (snd (finish_export e cfg qemu_env qcow2 vdi w)) = trace w @
                Exec [cfg_qemu_img cfg, ''convert'', ''-f'', ''qcow2'', ''-O'', ''vdi'',
                      qcow2, vdi] (heap w qemu_env) # evs)))
   \<and> cfg_min_free_bytes (make_config workdir a) = 50 * 1024 * 1024 * 1024"
proof (intro conjI impI)
  show "ensure_free_space e path required_bytes w =
     (if int (free_bytes e w) < required_bytes
      then (Inl (SystemExit (NotEnoughFreeSpace required_bytes (free_bytes e w))), w)
      else (Inr (), w))"
    by (simp add: ensure_free_space_def die_def raise_def return_def)
next
  assume "files w qcow2 = Some bytes"
    and "int (free_bytes e w) < max (int (length bytes)) (cfg_min_free_bytes cfg)"
  then show "finish_export e cfg qemu_env qcow2 vdi w =
             (Inl (SystemExit (NotEnoughFreeSpace
                (max (int (length bytes)) (cfg_min_free_bytes cfg)) (free_bytes e w))), w)"
    by (simp add: finish_export_def bind_def stat_size_def ensure_free_space_def die_def
        raise_def)
next
  assume f: "files w qcow2 = Some bytes"
    and sp: "max (int (length bytes)) (cfg_min_free_bytes cfg) \<le> int (free_bytes e w)"
  obtain r w' where fe: "finish_export e cfg qemu_env qcow2 vdi w = (r, w')"
    by (cases "finish_export e cfg qemu_env qcow2 vdi w")
  from finish_export_converts [OF fe f sp]
  show "\<exists>evs. trace (snd (finish_export e cfg qemu_env qcow2 vdi w)) = trace w @
                Exec [cfg_qemu_img cfg, ''convert'', ''-f'', ''qcow2'', ''-O'', ''vdi'',
                      qcow2, vdi] (heap w qemu_env) # evs"
    by (simp add: fe)
next
  show "cfg_min_free_bytes (make_config workdir a) = 50 * 1024 * 1024 * 1024"
    by (simp add: make_config_def MIN_FREE_BYTES_def)
qed


theorem free_space_checks_witness:
  "fst (ensure_free_space export_env ''/opt/export'' (60 * 1024 * 1024 * 1024) export_world)
     = Inr ()
   \<and> fst (ensure_free_space export_env ''/opt/export'' (60 * 1024 * 1024 * 1024 + 1)
            export_world)
     = Inl (SystemExit (NotEnoughFreeSpace (60 * 1024 * 1024 * 1024 + 1)
              (60 * 1024 * 1024 * 1024)))
   \<and> finish_export low_space_env (make_config ''/opt/export'' export_args) 1
        ''/opt/export/myvm.qcow2'' ''/opt/export/myvm.vdi'' staged_world
     = (Inl (SystemExit (NotEnoughFreeSpace (50 * 1024 * 1024 * 1024)
              (50 * 1024 * 1024 * 1024 - 1))), staged_world)
   \<and> (\<exists>evs. trace (snd (finish_export export_env (make_config ''/opt/export'' export_args) 1
                 ''/opt/export/myvm.qcow2'' ''/opt/export/myvm.vdi'' staged_world))
          = Exec [''/opt/export/bin/qemu-img'', ''convert'', ''-f'', ''qcow2'', ''-O'', ''vdi'',
                  ''/opt/export/myvm.qcow2'', ''/opt/export/myvm.vdi'']
              inherited_environment # evs)"
proof -
  note t1 = free_space_checks [of export_env "''/opt/export''" "60 * 1024 * 1024 * 1024"
      export_world "''/opt/export/myvm.qcow2''" "''qcow2 image''"
      "make_config ''/opt/export'' export_args" 1 "''/opt/export/myvm.vdi''" "''/opt/export''"
      export_args, THEN conjunct1]
  note t2 = free_space_checks [of export_env "''/opt/export''" "60 * 1024 * 1024 * 1024 + 1"
      export_world "''/opt/export/myvm.qcow2''" "''qcow2 image''"
      "make_config ''/opt/export'' export_args" 1 "''/opt/export/myvm.vdi''" "''/opt/export''"
      export_args, THEN conjunct1]
  note t3 = free_space_checks [of low_space_env "''/opt/export''" 0
      staged_world "''/opt/export/myvm.qcow2''" "''qcow2 image''"
      "make_config ''/opt/export'' export_args" 1 "''/opt/export/myvm.vdi''" "''/opt/export''"
      export_args, THEN conjunct2, THEN conjunct1]
  note t4 = free_space_checks [of export_env "''/opt/export''" 0
      staged_world "''/opt/export/myvm.qcow2''" "''qcow2 image''"
      "make_config ''/opt/export'' export_args" 1 "''/opt/export/myvm.vdi''" "''/opt/export''"
      export_args, THEN conjunct2, THEN conjunct1]
  have a: "fst (ensure_free_space export_env ''/opt/export'' (60 * 1024 * 1024 * 1024)
      export_world) = Inr ()"
    using t1 by (simp add: sample_free_bytes)
  have b: "fst (ensure_free_space export_env ''/opt/export'' (60 * 1024 * 1024 * 1024 + 1)
            export_world)
     = Inl (SystemExit (NotEnoughFreeSpace (60 * 1024 * 1024 * 1024 + 1)
              (60 * 1024 * 1024 * 1024)))"
    using t2 by (simp add: sample_free_bytes)
  have c: "finish_export low_space_env (make_config ''/opt/export'' export_args) 1
        ''/opt/export/myvm.qcow2'' ''/opt/export/myvm.vdi'' staged_world
     = (Inl (SystemExit (NotEnoughFreeSpace (50 * 1024 * 1024 * 1024)
              (50 * 1024 * 1024 * 1024 - 1))), staged_world)"
    using t3 by (simp add: sample_free_bytes sample_config staged_world_simps)
  have d: "\<exists>evs. trace (snd (finish_export export_env (make_config ''/opt/export'' export_args) 1
                 ''/opt/export/myvm.qcow2'' ''/opt/export/myvm.vdi'' staged_world))
          = Exec [''/opt/export/bin/qemu-img'', ''convert'', ''-f'', ''qcow2'', ''-O'', ''vdi'',
                  ''/opt/export/myvm.qcow2'', ''/opt/export/myvm.vdi'']
              inherited_environment # evs"
    using t4 by (simp add: sample_free_bytes sample_config staged_world_simps)
  from a b c d show ?thesis by blast
qed


section \<open>The checksum sidecar\<close>

text \<open>
  Both output paths are one base followed by \<^verbatim>\<open>.qcow2\<close> and by \<^verbatim>\<open>.vdi\<close>, so the
  sidecar path \<^verbatim>\<open>vdi_path.with_suffix(vdi_path.suffix + ".md5")\<close> is the VDI path
  followed by \<^verbatim>\<open>.md5\<close>, and the three paths differ.
\<close>

lemma output_paths_base:
  "\<exists>base. qcow2_path_of e cfg pn = base @ ''.qcow2'' \<and> vdi_path_of e cfg pn = base @ ''.vdi''"
proof (cases "format e pn")
  case Nil
  then show ?thesis by (simp add: qcow2_path_of_def vdi_path_of_def path_join_def)
next
  case (Cons c cs)
  then show ?thesis by (simp add: qcow2_path_of_def vdi_path_of_def path_join_def)
qed

lemma path_name_vdi: "path_name (base @ ''.vdi'') = path_name base @ ''.vdi''"
  by (simp add: path_name_def)

lemma suffix_vdi:
  "suffix (base @ ''.vdi'') = (if path_name base = [] then [] else ''.vdi'')"
  by (simp add: suffix_def path_name_vdi Let_def)

lemma with_suffix_vdi:
  "with_suffix (base @ ''.vdi'') (suffix (base @ ''.vdi'') @ ''.md5'') = Inr (base @ ''.vdi.md5'')"
  by (simp add: with_suffix_def suffix_vdi path_name_vdi)


lemma md5_file_result:
  "md5_file e p w = (Inr digest, w') \<Longrightarrow> \<exists>bytes. files w p = Some bytes \<and> digest = md5_hex e bytes"
  by (auto simp: md5_file_whole split: option.splits)

lemma write_text_files:
  "write_text e p t w = (Inr u, w') \<Longrightarrow> files w' = (files w)(p \<mapsto> t)"
  by (auto simp: write_text_def Let_def emit_def split: if_splits)

lemma unlink_quietly_files:
  "unlink_quietly e p w = (r, w') \<Longrightarrow> q \<noteq> p \<Longrightarrow> files w' q = files w q"
  by (auto simp: unlink_quietly_def Let_def emit_def split: if_splits)

lemma finish_export_success:
  assumes "finish_export e cfg qe (base @ ''.qcow2'') (base @ ''.vdi'') w = (Inr u, w')"
  shows "\<exists>bytes. files w' (base @ ''.vdi'') = Some bytes
     \<and> files w' (base @ ''.vdi.md5'') = Some (sidecar_text (md5_hex e bytes) (base @ ''.vdi''))"
  using assms unfolding finish_export_def
proof (cases rule: bindE)
  case (ok sz w1)
  from ok(2) show ?thesis
  proof (cases rule: bindE)
    case (ok u2 w2)
    from ok(2) show ?thesis
    proof (cases rule: bindE)
      case (ok u3 w3)
      from ok(2) show ?thesis
      proof (cases rule: bindE)
        case (ok u4 w4)
        then have w4: "w4 = w3" using stat_size_same by blast
        from ok(2) show ?thesis
        proof (cases rule: bindE)
          case (ok digest w5)
          then have w5: "w5 = w3" using md5_file_same w4 by blast
          from md5_file_result [OF ok(1)] w4 obtain bytes
            where b: "files w3 (base @ ''.vdi'') = Some bytes" and d: "digest = md5_hex e bytes"
            by auto
          from ok(2) have "bind (write_text e (base @ ''.vdi.md5'')
                (sidecar_text digest (base @ ''.vdi'')))
              (\<lambda>_. unlink_quietly e (base @ ''.qcow2'')) w5 = (Inr u, w')"
            by (simp add: with_suffix_vdi)
          then show ?thesis
          proof (cases rule: bindE)
            case (ok u6 w6)
            from write_text_files [OF ok(1)] w5
            have f6: "files w6 = (files w3)(base @ ''.vdi.md5'' \<mapsto>
                sidecar_text digest (base @ ''.vdi''))" by simp
            have "files w' (base @ ''.vdi'') = files w6 (base @ ''.vdi'')"
              by (rule unlink_quietly_files [OF ok(2)]) simp
            moreover have "files w' (base @ ''.vdi.md5'') = files w6 (base @ ''.vdi.md5'')"
              by (rule unlink_quietly_files [OF ok(2)]) simp
            ultimately show ?thesis using f6 b d by simp
          qed simp
        qed simp
      qed simp
    qed simp
  qed simp
qed simp

lemma export_images_success:
  assumes "export_images e cfg qe p pn w = (Inr u, w')"
  shows "\<exists>bytes. files w' (vdi_path_of e cfg pn) = Some bytes
     \<and> files w' (vdi_path_of e cfg pn @ ''.md5'')
         = Some (sidecar_text (md5_hex e bytes) (vdi_path_of e cfg pn))"
proof -
  obtain base where q: "qcow2_path_of e cfg pn = base @ ''.qcow2''"
    and v: "vdi_path_of e cfg pn = base @ ''.vdi''" using output_paths_base by blast
  from assms have "bind (convert_image e (cfg_qemu_img cfg) qe p (base @ ''.qcow2'')
       ''qcow2'' ''qcow2'')
     (\<lambda>_. finish_export e cfg qe (base @ ''.qcow2'') (base @ ''.vdi'')) w = (Inr u, w')"
    by (auto simp: export_images_def Let_def q v die_def raise_def split: if_splits)
  then show ?thesis
  proof (cases rule: bindE)
    case (ok u1 w1)
    from finish_export_success [OF ok(2)] show ?thesis by (simp add: v)
  qed simp
qed

text \<open>
  C7. After a run of \<^verbatim>\<open>main\<close> that ends normally there is a final image
  \<^verbatim>\<open><product>.vdi\<close> and beside it a file of that name followed by \<^verbatim>\<open>.md5\<close>, whose
  whole content is the MD5 hex digest of the bytes of the final image, two spaces, the file
  name of the final image and a newline; computing \<^verbatim>\<open>md5_file\<close> over the final image
  again gives the digest recorded.
\<close>

theorem checksum_sidecar:
  assumes "main e workdir a w = (Inr (), w')"
  shows "\<exists>product_name bytes.
     files w' (vdi_path_of e (make_config workdir a) product_name) = Some bytes
     \<and> files w' (vdi_path_of e (make_config workdir a) product_name @ ''.md5'')
         = Some (md5_hex e bytes @ ''  ''
                 @ path_name (vdi_path_of e (make_config workdir a) product_name)
                 @ [CHR 0x0A])
     \<and> md5_file e (vdi_path_of e (make_config workdir a) product_name) w'
         = (Inr (md5_hex e bytes), w')"
  using assms
proof (cases rule: main_cases [where target = "augmented (DEFAULT_LIB_PATH workdir) (heap w 0)"])
  case (located client vm w0)
  from located(3) show ?thesis
  proof (cases rule: export_vm_cases)
    case (valid vm_uuid vm_state p name)
    from valid(7) show ?thesis
    proof (cases rule: bindE)
      case (ok qe w1)
      from export_images_success [OF ok(2)] obtain bytes where
        "files w' (vdi_path_of e (make_config workdir a) (choose_product_name a name))
           = Some bytes"
        "files w' (vdi_path_of e (make_config workdir a) (choose_product_name a name) @ ''.md5'')
           = Some (sidecar_text (md5_hex e bytes)
               (vdi_path_of e (make_config workdir a) (choose_product_name a name)))"
        by blast
      then show ?thesis
        by (intro exI [of _ "choose_product_name a name"] exI [of _ bytes])
           (simp add: sidecar_text_def md5_file_whole)
    qed simp
  qed simp
qed simp


theorem checksum_sidecar_witness:
  "\<exists>w'. main export_env ''/opt/export'' export_args export_world = (Inr (), w')
     \<and> files w' ''/opt/export/myvm.vdi'' = Some ''vdi image''
     \<and> files w' ''/opt/export/myvm.vdi.md5''
         = Some (''7a67883e36b7c25dbdf01a70e969ac90  myvm.vdi'' @ [CHR 0x0A])
     \<and> md5_file export_env ''/opt/export/myvm.vdi'' w'
         = (Inr ''7a67883e36b7c25dbdf01a70e969ac90'', w')"
proof -
  from sample_run obtain w' where
    run: "main export_env ''/opt/export'' export_args export_world = (Inr (), w')"
    and vdi: "files w' ''/opt/export/myvm.vdi'' = Some ''vdi image''"
    and sidecar: "files w' ''/opt/export/myvm.vdi.md5''
         = Some (''7a67883e36b7c25dbdf01a70e969ac90  myvm.vdi'' @ [CHR 0x0A])" by blast
  from checksum_sidecar [OF run] obtain product_name bytes where
    "md5_file export_env
       (vdi_path_of export_env (make_config ''/opt/export'' export_args) product_name) w'
       = (Inr (md5_hex export_env bytes), w')" by blast
  have "md5_file export_env ''/opt/export/myvm.vdi'' w'
         = (Inr ''7a67883e36b7c25dbdf01a70e969ac90'', w')"
    by (simp add: md5_file_whole vdi export_env_def)
  with run vdi sidecar show ?thesis by blast
qed


section \<open>What is read from the VM record\<close>

text \<open>
  \<open>after_lookup\<close> is the state once the login and the lookup have been answered, and
  \<open>fresh_client\<close> the client that holds the session. \<open>serving vm\<close> is the sample
  outside with \<open>vm\<close> as the only record of the inventory; \<open>data_only_vm\<close> has no root
  volume and \<open>nameless_vm\<close> an empty display name.
\<close>

definition after_lookup :: "env \<Rightarrow> args \<Rightarrow> world \<Rightarrow> world" where
  "after_lookup e a w =
     snd (http_call e (GetVmReq (args_ip a)) (snd (http_call e LoginReq w)))"

definition fresh_client :: "json \<Rightarrow> ZStackClient" where
  "fresh_client session =
     \<lparr>client_host = ''http://localhost:8080'', client_username = ''admin'',
      client_password = ''password'', session_uuid = session\<rparr>"

lemma after_lookup_simps:
  "trace (after_lookup e a w) = trace w @ [Http LoginReq, Http (GetVmReq (args_ip a))]"
  "files (after_lookup e a w) = files w"
  "execs (after_lookup e a w) = execs w"
  "heap (after_lookup e a w) = heap w"
  by (simp_all add: after_lookup_def http_call_def Let_def emit_def)

lemma main_located:
  assumes "which e ''ssh''" and "which e ''sshpass''"
    and "http e (requests w) LoginReq = Body body"
    and "subscript body ''inventory'' = Inr inventory"
    and "subscript inventory ''uuid'' = Inr session"
    and "truthy session"
    and "http e (Suc (requests w)) (GetVmReq (args_ip a)) = Body data"
    and "first_inventory data = Inr vm"
    and "truthy vm"
  shows "main e workdir a w =
     export_vm e (make_config workdir a) (fresh_client session) a vm (after_lookup e a w)"
  using assms
  by (simp add: main_def Let_def bind_def require_command_def return_def login_def
      http_call_def get_vm_by_ip_def headers_def after_lookup_def fresh_client_def
      make_config_def rstrip_slash_def emit_def)

definition serving :: "json \<Rightarrow> env" where
  "serving vm =
     export_env\<lparr>http := (\<lambda>k req. case req of
        LoginReq \<Rightarrow> Body (JObj [(''inventory'', JObj [(''uuid'', JStr ''s1'')])])
      | GetVmReq ip \<Rightarrow> Body (JObj [(''inventories'', JList [vm])])
      | StartVmReq u \<Rightarrow> Body (JObj []))\<rparr>"

definition data_only_vm :: "(string \<times> json) list" where
  "data_only_vm =
     [(''uuid'', JStr ''u1''), (''name'', JStr ''myvm''), (''state'', JStr ''Running''),
      (''allVolumes'', JList [volume ''Data'' ''/data/pool/vm1-data.img''])]"

definition nameless_vm :: "(string \<times> json) list" where
  "nameless_vm =
     [(''uuid'', JStr ''u1''), (''name'', JStr []), (''state'', JStr ''Running''),
      (''allVolumes'', JList [volume ''Root'' ''/data/pool/vm1.img''])]"

lemma serving_simps:
  "which (serving vm) c"
  "http (serving vm) k LoginReq = Body (JObj [(''inventory'', JObj [(''uuid'', JStr ''s1'')])])"
  "http (serving vm) k (GetVmReq ip) = Body (JObj [(''inventories'', JList [vm])])"
  by (simp_all add: serving_def export_env_def)

text \<open>
  C3. When the commands are there, the login gives a session and the lookup gives a VM
  record whose uuid is missing or empty, or which has no volume tagged \<^verbatim>\<open>Root\<close>, or
  whose root volume has no or an empty install path, then \<^verbatim>\<open>main\<close> exits through
  \<^verbatim>\<open>die\<close> with nothing done but the two HTTP requests: no subprocess (remote command or
  conversion) was started and no file was changed.
\<close>

theorem missing_root_volume_aborts:
  assumes "which e ''ssh''" and "which e ''sshpass''"
    and "http e (requests w) LoginReq = Body body"
    and "subscript body ''inventory'' = Inr inventory"
    and "subscript inventory ''uuid'' = Inr session"
    and "truthy session"
    and "http e (Suc (requests w)) (GetVmReq (args_ip a)) = Body data"
    and "first_inventory data = Inr (JObj vm)"
    and "vm \<noteq> []"
    and "dict_get (JObj vm) ''uuid'' JNull = Inr vm_uuid"
    and "get_root_install_path (JObj vm) = Inr install_path"
    and "\<not> truthy vm_uuid \<or> \<not> truthy install_path"
  shows "\<exists>w'. main e workdir a w = (Inl (SystemExit MissingUuidOrInstallPath), w')
     \<and> trace w' = trace w @ [Http LoginReq, Http (GetVmReq (args_ip a))]
     \<and> files w' = files w \<and> execs w' = execs w"
proof -
  have "main e workdir a w =
     export_vm e (make_config workdir a) (fresh_client session) a (JObj vm) (after_lookup e a w)"
    using assms(1-8) by (intro main_located) (simp_all add: assms(9))
  moreover have "export_vm e (make_config workdir a) (fresh_client session) a (JObj vm)
      (after_lookup e a w) = (Inl (SystemExit MissingUuidOrInstallPath), after_lookup e a w)"
    using assms(10-12)
    by (auto simp: export_vm_def dict_get_def die_def raise_def split: option.splits)
  ultimately show ?thesis by (simp add: after_lookup_simps)
qed


theorem missing_root_volume_aborts_witness:
  "\<exists>w'. main (serving (JObj data_only_vm)) ''/opt/export'' export_args export_world
         = (Inl (SystemExit MissingUuidOrInstallPath), w')
     \<and> trace w' = [Http LoginReq, Http (GetVmReq ''10.0.0.5'')]
     \<and> files w' = files export_world \<and> execs w' = 0"
proof -
  have "\<exists>w'. main (serving (JObj data_only_vm)) ''/opt/export'' export_args export_world
         = (Inl (SystemExit MissingUuidOrInstallPath), w')
     \<and> trace w' = trace export_world @ [Http LoginReq, Http (GetVmReq (args_ip export_args))]
     \<and> files w' = files export_world \<and> execs w' = execs export_world"
  proof (rule missing_root_volume_aborts)
    show "which (serving (JObj data_only_vm)) ''ssh''"
      and "which (serving (JObj data_only_vm)) ''sshpass''" by (simp_all add: serving_simps)
    show "http (serving (JObj data_only_vm)) (requests export_world) LoginReq
        = Body (JObj [(''inventory'', JObj [(''uuid'', JStr ''s1'')])])"
      by (simp add: serving_simps)
    show "subscript (JObj [(''inventory'', JObj [(''uuid'', JStr ''s1'')])]) ''inventory''
        = Inr (JObj [(''uuid'', JStr ''s1'')])" by (simp add: subscript_def)
    show "subscript (JObj [(''uuid'', JStr ''s1'')]) ''uuid'' = Inr (JStr ''s1'')"
      by (simp add: subscript_def)
    show "truthy (JStr ''s1'')" by simp
    show "http (serving (JObj data_only_vm)) (Suc (requests export_world))
        (GetVmReq (args_ip export_args)) = Body (JObj [(''inventories'', JList [JObj data_only_vm])])"
      by (simp add: serving_simps)
    show "first_inventory (JObj [(''inventories'', JList [JObj data_only_vm])])
        = Inr (JObj data_only_vm)"
      by (simp add: first_inventory_def dict_get_def py_or_def index0_def)
    show "data_only_vm \<noteq> []" by (simp add: data_only_vm_def)
    show "dict_get (JObj data_only_vm) ''uuid'' JNull = Inr (JStr ''u1'')"
      by (simp add: dict_get_def data_only_vm_def)
    show "get_root_install_path (JObj data_only_vm) = Inr JNull"
      by (simp add: get_root_install_path_def dict_get_def data_only_vm_def iterate_def
          volume_def)
    show "\<not> truthy (JStr ''u1'') \<or> \<not> truthy JNull" by simp
  qed
  then show ?thesis by (simp add: export_world_def export_args_def)
qed

text \<open>
  C9. When the product argument is omitted or empty and the display name of the VM record
  found is missing or falsy, the product name is \<^verbatim>\<open>vm_image\<close> and the pipeline goes on
  with it: the output paths are \<^verbatim>\<open>vm_image.qcow2\<close> and \<^verbatim>\<open>vm_image.vdi\<close> in the
  working directory, and a run that ends normally leaves the final image and its sidecar
  under that name.
\<close>

theorem product_name_fallback:
  assumes "which e ''ssh''" and "which e ''sshpass''"
    and "http e (requests w) LoginReq = Body body"
    and "subscript body ''inventory'' = Inr inventory"
    and "subscript inventory ''uuid'' = Inr session"
    and "truthy session"
    and "http e (Suc (requests w)) (GetVmReq (args_ip a)) = Body data"
    and "first_inventory data = Inr (JObj vm)"
    and "vm \<noteq> []"
    and "args_product a = None \<or> args_product a = Some []"
    and "dict_get (JObj vm) ''name'' JNull = Inr name"
    and "\<not> truthy name"
    and "dict_get (JObj vm) ''uuid'' JNull = Inr vm_uuid"
    and "truthy vm_uuid"
    and "get_root_install_path (JObj vm) = Inr (JStr p)"
    and "p \<noteq> []"
    and "dict_get (JObj vm) ''state'' (JStr []) = Inr vm_state"
  shows "choose_product_name a name = JStr ''vm_image''
     \<and> main e workdir a w =
         bind (prepare_export e (make_config workdir a) (fresh_client session) a vm_uuid vm_state
                 (strip p))
           (\<lambda>qemu_env. export_images e (make_config workdir a) qemu_env (strip p)
                          (JStr ''vm_image''))
           (after_lookup e a w)
     \<and> qcow2_path_of e (make_config workdir a) (JStr ''vm_image'')
         = path_join workdir ''vm_image.qcow2''
     \<and> vdi_path_of e (make_config workdir a) (JStr ''vm_image'')
         = path_join workdir ''vm_image.vdi''
     \<and> (\<forall>w'. main e workdir a w = (Inr (), w') \<longrightarrow>
           files w' (path_join workdir ''vm_image.vdi'') \<noteq> None
           \<and> files w' (path_join workdir ''vm_image.vdi'' @ ''.md5'') \<noteq> None)"
proof -
  have n: "choose_product_name a name = JStr ''vm_image''"
    using assms(10,12) by (auto simp: choose_product_name_def product_arg_def py_or_def)
  have "main e workdir a w =
     export_vm e (make_config workdir a) (fresh_client session) a (JObj vm) (after_lookup e a w)"
    using assms(1-8) by (intro main_located) (simp_all add: assms(9))
  with assms(11,13-17) n have m: "main e workdir a w =
         bind (prepare_export e (make_config workdir a) (fresh_client session) a vm_uuid vm_state
                 (strip p))
           (\<lambda>qemu_env. export_images e (make_config workdir a) qemu_env (strip p)
                          (JStr ''vm_image''))
           (after_lookup e a w)"
    by (simp add: export_vm_def)
  have q: "qcow2_path_of e (make_config workdir a) (JStr ''vm_image'')
         = path_join workdir ''vm_image.qcow2''"
    and v: "vdi_path_of e (make_config workdir a) (JStr ''vm_image'')
         = path_join workdir ''vm_image.vdi''"
    by (simp_all add: qcow2_path_of_def vdi_path_of_def format_def make_config_def)
  have s: "files w' (path_join workdir ''vm_image.vdi'') \<noteq> None
           \<and> files w' (path_join workdir ''vm_image.vdi'' @ ''.md5'') \<noteq> None"
    if "main e workdir a w = (Inr (), w')" for w'
  proof -
    from that m have "bind (prepare_export e (make_config workdir a) (fresh_client session) a
          vm_uuid vm_state (strip p))
        (\<lambda>qemu_env. export_images e (make_config workdir a) qemu_env (strip p)
                       (JStr ''vm_image''))
        (after_lookup e a w) = (Inr (), w')" by simp
    then show ?thesis
    proof (cases rule: bindE)
      case (ok qe w1)
      from export_images_success [OF ok(2)] show ?thesis by (auto simp: v)
    qed simp
  qed
  from n m q v s show ?thesis by blast
qed


lemma nameless_run:
  "\<exists>w'. main (serving (JObj nameless_vm)) ''/opt/export'' export_args export_world = (Inr (), w')"
  by (simp add: io_defs model_defs sample_defs serving_def nameless_vm_def)

theorem product_name_fallback_witness:
  "\<exists>w'. main (serving (JObj nameless_vm)) ''/opt/export'' export_args export_world = (Inr (), w')
     \<and> files w' ''/opt/export/vm_image.vdi'' \<noteq> None
     \<and> files w' ''/opt/export/vm_image.vdi.md5'' \<noteq> None"
proof -
  from nameless_run obtain w' where
    run: "main (serving (JObj nameless_vm)) ''/opt/export'' export_args export_world
            = (Inr (), w')" by blast
  have "choose_product_name export_args (JStr []) = JStr ''vm_image''
     \<and> main (serving (JObj nameless_vm)) ''/opt/export'' export_args export_world =
         bind (prepare_export (serving (JObj nameless_vm))
                 (make_config ''/opt/export'' export_args) (fresh_client (JStr ''s1''))
                 export_args (JStr ''u1'') (JStr ''Running'') (strip ''/data/pool/vm1.img''))
           (\<lambda>qemu_env. export_images (serving (JObj nameless_vm))
                          (make_config ''/opt/export'' export_args) qemu_env
                          (strip ''/data/pool/vm1.img'') (JStr ''vm_image''))
           (after_lookup (serving (JObj nameless_vm)) export_args export_world)
     \<and> qcow2_path_of (serving (JObj nameless_vm)) (make_config ''/opt/export'' export_args)
           (JStr ''vm_image'')
         = path_join ''/opt/export'' ''vm_image.qcow2''
     \<and> vdi_path_of (serving (JObj nameless_vm)) (make_config ''/opt/export'' export_args)
           (JStr ''vm_image'')
         = path_join ''/opt/export'' ''vm_image.vdi''
     \<and> (\<forall>w'. main (serving (JObj nameless_vm)) ''/opt/export'' export_args export_world
               = (Inr (), w') \<longrightarrow>
           files w' (path_join ''/opt/export'' ''vm_image.vdi'') \<noteq> None
           \<and> files w' (path_join ''/opt/export'' ''vm_image.vdi'' @ ''.md5'') \<noteq> None)"
  proof (rule product_name_fallback)
    show "which (serving (JObj nameless_vm)) ''ssh''"
      and "which (serving (JObj nameless_vm)) ''sshpass''" by (simp_all add: serving_simps)
    show "http (serving (JObj nameless_vm)) (requests export_world) LoginReq
        = Body (JObj [(''inventory'', JObj [(''uuid'', JStr ''s1'')])])"
      by (simp add: serving_simps)
    show "subscript (JObj [(''inventory'', JObj [(''uuid'', JStr ''s1'')])]) ''inventory''
        = Inr (JObj [(''uuid'', JStr ''s1'')])" by (simp add: subscript_def)
    show "subscript (JObj [(''uuid'', JStr ''s1'')]) ''uuid'' = Inr (JStr ''s1'')"
      by (simp add: subscript_def)
    show "truthy (JStr ''s1'')" by simp
    show "http (serving (JObj nameless_vm)) (Suc (requests export_world))
        (GetVmReq (args_ip export_args)) = Body (JObj [(''inventories'', JList [JObj nameless_vm])])"
      by (simp add: serving_simps)
    show "first_inventory (JObj [(''inventories'', JList [JObj nameless_vm])])
        = Inr (JObj nameless_vm)"
      by (simp add: first_inventory_def dict_get_def py_or_def index0_def)
    show "nameless_vm \<noteq> []" by (simp add: nameless_vm_def)
    show "args_product export_args = None \<or> args_product export_args = Some []"
      by (simp add: export_args_def)
    show "dict_get (JObj nameless_vm) ''name'' JNull = Inr (JStr [])"
      by (simp add: dict_get_def nameless_vm_def)
    show "\<not> truthy (JStr [])" by simp
    show "dict_get (JObj nameless_vm) ''uuid'' JNull = Inr (JStr ''u1'')"
      by (simp add: dict_get_def nameless_vm_def)
    show "truthy (JStr ''u1'')" by simp
    show "get_root_install_path (JObj nameless_vm) = Inr (JStr ''/data/pool/vm1.img'')"
      by (simp add: get_root_install_path_def dict_get_def nameless_vm_def iterate_def
          volume_def)
    show "''/data/pool/vm1.img'' \<noteq> []" by simp
    show "dict_get (JObj nameless_vm) ''state'' (JStr []) = Inr (JStr ''Running'')"
      by (simp add: dict_get_def nameless_vm_def)
  qed
  with run have "files w' (path_join ''/opt/export'' ''vm_image.vdi'') \<noteq> None
           \<and> files w' (path_join ''/opt/export'' ''vm_image.vdi'' @ ''.md5'') \<noteq> None"
    by blast
  with run show ?thesis by (auto simp: path_join_def)
qed


section \<open>Starting the VM and waiting for it\<close>

text \<open>
  \<open>poll_view\<close> is what one answer of the inventory shows to the loop: no VM, or a VM
  with its state in lower case; it is \<open>None\<close> for an answer on which the lookup or the
  reading of the state raises. \<open>running_at e ip k\<close> says that the \<open>k\<close>-th request, if
  it is a lookup of \<open>ip\<close>, shows a running VM. \<open>polls ip m\<close> is \<open>m\<close> turns of the
  loop, each a sleep of three seconds and a lookup, and \<open>settled\<close> the settle sleep.
  \<open>clock_after e k t i\<close> is the clock after \<open>i\<close> turns begun at time \<open>t\<close> with request
  number \<open>k\<close>: every turn adds three seconds and the time its lookup takes.
  \<open>waking_env ready latency\<close> answers \<^verbatim>\<open>Stopped\<close> to the requests before the
  \<open>ready\<close>-th and \<^verbatim>\<open>Running\<close> from then on, each request taking \<open>latency\<close> seconds.
\<close>

definition poll_view :: "http_reply \<Rightarrow> string option option" where
  "poll_view reply =
     (case reply of
        Body data \<Rightarrow>
          (case first_inventory data of
             Inr vm \<Rightarrow>
               if \<not> truthy vm then Some None
               else
                 (case dict_get vm ''state'' JNull of
                    Inr s \<Rightarrow> (case lower_or_empty s of Inr state \<Rightarrow> Some (Some state) | Inl x \<Rightarrow> None)
                  | Inl x \<Rightarrow> None)
           | Inl x \<Rightarrow> None)
      | _ \<Rightarrow> None)"

definition running_at :: "env \<Rightarrow> string \<Rightarrow> nat \<Rightarrow> bool" where
  "running_at e ip k = (poll_view (http e k (GetVmReq ip)) = Some (Some ''running''))"

definition polls :: "string \<Rightarrow> nat \<Rightarrow> event list" where
  "polls ip m = concat (replicate m [Sleep 3, Http (GetVmReq ip)])"

definition settled :: "int \<Rightarrow> event list" where
  "settled s = (if s \<noteq> 0 then [Sleep s] else [])"

fun clock_after :: "env \<Rightarrow> nat \<Rightarrow> int \<Rightarrow> nat \<Rightarrow> int" where
  "clock_after e k t 0 = t"
| "clock_after e k t (Suc i) = clock_after e (Suc k) (t + 3 + int (http_latency e k)) i"

definition poll_result ::
  "env \<Rightarrow> string \<Rightarrow> int \<Rightarrow> int \<Rightarrow> world \<Rightarrow> exn + unit \<Rightarrow> world \<Rightarrow> bool" where
  "poll_result e ip s deadline w r w' =
     (\<exists>m. (\<forall>i<m. clock_after e (requests w) (now w) i < deadline)
        \<and> ((r = Inr () \<and> 0 < m \<and> running_at e ip (requests w + (m - 1))
              \<and> (\<forall>j<m - 1. \<not> running_at e ip (requests w + j))
              \<and> trace w' = trace w @ polls ip m @ settled s
              \<and> now w' = clock_after e (requests w) (now w) m + s)
          \<or> (r = Inl (SystemExit NotRunningInTime) \<and> deadline \<le> now w'
              \<and> now w' = clock_after e (requests w) (now w) m
              \<and> (\<forall>j<m. \<not> running_at e ip (requests w + j))
              \<and> trace w' = trace w @ polls ip m)))"

definition polled :: "env \<Rightarrow> string \<Rightarrow> world \<Rightarrow> world" where
  "polled e ip w =
     emit (Http (GetVmReq ip))
       (w\<lparr>now := now w + int (http_latency e (requests w)), requests := Suc (requests w)\<rparr>)"

lemma get_vm_by_ip_view:
  assumes "truthy (session_uuid c)" and "poll_view (http e (requests w) (GetVmReq ip)) = Some v"
  shows "\<exists>vm. get_vm_by_ip e c ip w = (Inr vm, polled e ip w)
     \<and> (v = None \<longrightarrow> \<not> truthy vm)
     \<and> (\<forall>state. v = Some state \<longrightarrow>
           truthy vm \<and> (\<exists>s. dict_get vm ''state'' JNull = Inr s \<and> lower_or_empty s = Inr state))"
  using assms
  by (auto simp: get_vm_by_ip_def bind_def headers_def return_def raise_def http_call_def
      Let_def polled_def poll_view_def split: http_reply.splits sum.splits if_splits)

lemma settle_result:
  "0 \<le> s \<Longrightarrow>
   \<exists>w'. settle s w = (Inr (), w') \<and> trace w' = trace w @ settled s \<and> now w' = now w + s"
  by (simp add: settle_def settled_def sleep_def return_def emit_def)

lemma polls_Suc: "polls ip (Suc m) = [Sleep 3, Http (GetVmReq ip)] @ polls ip m"
  by (simp add: polls_def)

lemma poll_result_step:
  assumes "poll_result e ip s deadline w2 r w'"
    and "\<not> running_at e ip (requests w)"
    and "requests w2 = Suc (requests w)"
    and "trace w2 = trace w @ [Sleep 3, Http (GetVmReq ip)]"
    and "now w < deadline"
    and "now w2 = now w + 3 + int (http_latency e (requests w))"
  shows "poll_result e ip s deadline w r w'"
proof -
  from assms(1) obtain m where
    c: "\<forall>i<m. clock_after e (requests w2) (now w2) i < deadline"
    and m: "(r = Inr () \<and> 0 < m \<and> running_at e ip (requests w2 + (m - 1))
            \<and> (\<forall>j<m - 1. \<not> running_at e ip (requests w2 + j))
            \<and> trace w' = trace w2 @ polls ip m @ settled s
            \<and> now w' = clock_after e (requests w2) (now w2) m + s)
        \<or> (r = Inl (SystemExit NotRunningInTime) \<and> deadline \<le> now w'
            \<and> now w' = clock_after e (requests w2) (now w2) m
            \<and> (\<forall>j<m. \<not> running_at e ip (requests w2 + j))
            \<and> trace w' = trace w2 @ polls ip m)"
    unfolding poll_result_def by blast
  have ck: "clock_after e (requests w) (now w) (Suc i) = clock_after e (requests w2) (now w2) i"
    for i by (simp add: assms(3,6))
  have c': "\<forall>i<Suc m. clock_after e (requests w) (now w) i < deadline"
  proof (intro allI impI)
    fix i assume "i < Suc m"
    show "clock_after e (requests w) (now w) i < deadline"
    proof (cases i)
      case 0
      with assms(5) show ?thesis by simp
    next
      case (Suc i')
      with \<open>i < Suc m\<close> c show ?thesis by (simp add: ck del: clock_after.simps)
    qed
  qed
  have none: "\<forall>j<Suc n. \<not> running_at e ip (requests w + j)"
    if "\<forall>j<n. \<not> running_at e ip (requests w2 + j)" for n
  proof (intro allI impI)
    fix j assume "j < Suc n"
    show "\<not> running_at e ip (requests w + j)"
    proof (cases j)
      case 0
      with assms(2) show ?thesis by simp
    next
      case (Suc i)
      with \<open>j < Suc n\<close> that assms(3) show ?thesis by simp
    qed
  qed
  from m show ?thesis
  proof
    assume a: "r = Inr () \<and> 0 < m \<and> running_at e ip (requests w2 + (m - 1))
            \<and> (\<forall>j<m - 1. \<not> running_at e ip (requests w2 + j))
            \<and> trace w' = trace w2 @ polls ip m @ settled s
            \<and> now w' = clock_after e (requests w2) (now w2) m + s"
    then have "running_at e ip (requests w + (Suc m - 1))"
      using assms(3) by (cases m) simp_all
    moreover from a none [of "m - 1"] have "\<forall>j<Suc m - 1. \<not> running_at e ip (requests w + j)"
      by (cases m) simp_all
    moreover from a assms(4) have "trace w' = trace w @ polls ip (Suc m) @ settled s"
      by (simp add: polls_Suc)
    moreover from a have "now w' = clock_after e (requests w) (now w) (Suc m) + s"
      by (simp only: ck)
    ultimately show ?thesis using a c' unfolding poll_result_def
      by (intro exI [of _ "Suc m"]) (simp del: clock_after.simps)
  next
    assume a: "r = Inl (SystemExit NotRunningInTime) \<and> deadline \<le> now w'
            \<and> now w' = clock_after e (requests w2) (now w2) m
            \<and> (\<forall>j<m. \<not> running_at e ip (requests w2 + j))
            \<and> trace w' = trace w2 @ polls ip m"
    then have "\<forall>j<Suc m. \<not> running_at e ip (requests w + j)" using none by blast
    moreover from a assms(4) have "trace w' = trace w @ polls ip (Suc m)"
      by (simp add: polls_Suc)
    moreover from a have "now w' = clock_after e (requests w) (now w) (Suc m)"
      by (simp only: ck)
    ultimately show ?thesis using a c' unfolding poll_result_def
      by (intro exI [of _ "Suc m"]) (simp del: clock_after.simps)
  qed
qed

lemma polled_simps:
  "requests (polled e ip w) = Suc (requests w)"
  "trace (polled e ip w) = trace w @ [Http (GetVmReq ip)]"
  "now (polled e ip w) = now w + int (http_latency e (requests w))"
  by (simp_all add: polled_def emit_def)

lemma poll_outcome:
  "truthy (session_uuid c) \<Longrightarrow> 0 \<le> s \<Longrightarrow>
   \<forall>k. poll_view (http e k (GetVmReq ip)) \<noteq> None \<Longrightarrow>
   poll e c ip s deadline w = (r, w') \<Longrightarrow> poll_result e ip s deadline w r w'"
proof (induction e c ip s deadline w rule: poll.induct)
  case (1 e c ip s deadline w)
  note sess = "1.prems"(1) and nonneg = "1.prems"(2) and ans = "1.prems"(3)
    and run = "1.prems"(4)
  show ?case
  proof (cases "now w < deadline")
    case False
    with run have "w' = w" "r = Inl (SystemExit NotRunningInTime)"
      by (subst (asm) poll.simps, simp add: die_def raise_def)+
    with False show ?thesis
      unfolding poll_result_def by (intro exI [of _ 0]) (simp add: polls_def)
  next
    case True
    note lt = True
    define w1 where "w1 = emit (Sleep 3) (w\<lparr>now := now w + 3\<rparr>)"
    have sl: "sleep 3 w = (Inr (), w1)" by (simp add: sleep_def w1_def)
    have w1: "requests w1 = requests w" "trace w1 = trace w @ [Sleep 3]"
      "now w1 = now w + 3"
      by (simp_all add: w1_def emit_def)
    from ans obtain v where v: "poll_view (http e (requests w1) (GetVmReq ip)) = Some v"
      by (metis not_Some_eq)
    from get_vm_by_ip_view [OF sess v] obtain vm where
      g: "get_vm_by_ip e c ip w1 = (Inr vm, polled e ip w1)"
      and vn: "v = None \<longrightarrow> \<not> truthy vm"
      and vs: "\<forall>state. v = Some state \<longrightarrow>
           truthy vm \<and> (\<exists>s. dict_get vm ''state'' JNull = Inr s \<and> lower_or_empty s = Inr state)"
      by blast
    let ?w2 = "polled e ip w1"
    have w2: "requests ?w2 = Suc (requests w)"
      "trace ?w2 = trace w @ [Sleep 3, Http (GetVmReq ip)]"
      by (simp_all add: polled_simps w1)
    have n2: "now ?w2 = now w + 3 + int (http_latency e (requests w))"
      by (simp add: polled_simps w1)
    show ?thesis
    proof (cases v)
      case None
      with vn have nt: "\<not> truthy vm" by simp
      with run lt sl g have pr: "poll e c ip s deadline ?w2 = (r, w')"
        by (subst (asm) poll.simps) simp
      have ih: "poll_result e ip s deadline ?w2 r w'"
        by (rule "1.IH"(1) [OF lt sl [symmetric] refl g [symmetric] refl nt sess nonneg ans pr])
      have "\<not> running_at e ip (requests w)"
        using v None w1 by (simp add: running_at_def)
      with ih show ?thesis using w2 lt n2 by (rule poll_result_step)
    next
      case (Some state)
      with vs obtain st where tv: "truthy vm"
        and ds: "dict_get vm ''state'' JNull = Inr st" and ls: "lower_or_empty st = Inr state"
        by blast
      show ?thesis
      proof (cases "state = ''running''")
        case True
        with run lt sl g tv ds ls have se: "settle s ?w2 = (r, w')"
          by (subst (asm) poll.simps) simp
        from settle_result [OF nonneg, of ?w2] se
        have r: "r = Inr ()" and t: "trace w' = trace ?w2 @ settled s"
          and n: "now w' = now ?w2 + s" by auto
        have "running_at e ip (requests w)"
          using v Some True w1 by (simp add: running_at_def)
        with r t n w2 n2 lt show ?thesis
          unfolding poll_result_def by (intro exI [of _ 1]) (simp add: polls_def)
      next
        case False
        with run lt sl g tv ds ls have pr: "poll e c ip s deadline ?w2 = (r, w')"
          by (subst (asm) poll.simps) simp
        have nn: "\<not> \<not> truthy vm" using tv by simp
        have ih: "poll_result e ip s deadline ?w2 r w'"
          by (rule "1.IH"(2) [OF lt sl [symmetric] refl g [symmetric] refl nn ds ls False
                sess nonneg ans pr])
        have "\<not> running_at e ip (requests w)"
          using v Some False w1 by (simp add: running_at_def)
        with ih show ?thesis using w2 lt n2 by (rule poll_result_step)
      qed
    qed
  qed
qed


fun is_power_on :: "event \<Rightarrow> bool" where
  "is_power_on (Http (StartVmReq u)) = True"
| "is_power_on ev = False"

lemma no_power_on_in_polls:
  "filter is_power_on (polls ip m) = []" "filter is_power_on (settled s) = []"
  unfolding polls_def settled_def by (induction m) auto

lemma start_vm_accepted:
  assumes "truthy (session_uuid c)"
    and "http e (requests w) (StartVmReq u) \<noteq> NoConnection"
    and "http e (requests w) (StartVmReq u) \<noteq> BadStatus"
  shows "\<exists>w1. start_vm e c u w = (Inr (), w1) \<and> requests w1 = Suc (requests w)
     \<and> now w1 = now w + int (http_latency e (requests w))
     \<and> trace w1 = trace w @ [Http (StartVmReq u)]"
  using assms
  by (auto simp: start_vm_def bind_def headers_def return_def raise_def http_call_def Let_def
      emit_def split: http_reply.splits)

definition waking_env :: "nat \<Rightarrow> nat \<Rightarrow> env" where
  "waking_env ready latency =
     export_env\<lparr>
       http := (\<lambda>k req. case req of
          LoginReq \<Rightarrow> Body (JObj [(''inventory'', JObj [(''uuid'', JStr ''s1'')])])
        | GetVmReq ip \<Rightarrow>
            Body (JObj [(''inventories'',
              JList [sample_vm (if k < ready then ''Stopped'' else ''Running'')])])
        | StartVmReq u \<Rightarrow> Body (JObj [])),
       http_latency := (\<lambda>_. latency)\<rparr>"

lemma waking_view:
  "poll_view (http (waking_env ready latency) k (GetVmReq ip))
     = Some (Some (if k < ready then ''stopped'' else ''running''))"
  by (simp add: poll_view_def waking_env_def export_env_def first_inventory_def dict_get_def
      py_or_def index0_def sample_vm_def lower_or_empty_def lower_def lower_char_def)

lemma waking_run:
  "\<exists>w'. ensure_vm_running (waking_env 3 1) logged_in ''10.0.0.5'' (JStr ''u1'') (JStr ''Stopped'')
           180 20 export_world = (Inr (), w')
     \<and> trace w' = [Http (StartVmReq (JStr ''u1'')),
                   Sleep 3, Http (GetVmReq ''10.0.0.5''), Sleep 3, Http (GetVmReq ''10.0.0.5''),
                   Sleep 3, Http (GetVmReq ''10.0.0.5''), Sleep 20]
     \<and> now w' = 33"
  by (simp add: ensure_vm_running_def lower_or_empty_def lower_def lower_char_def py_or_def
      start_vm_def get_vm_by_ip_def headers_def http_call_def first_inventory_def dict_get_def
      index0_def settle_def poll.simps io_defs waking_env_def export_env_def export_world_def
      logged_in_def sample_vm_def)

lemma sluggish_run:
  "\<exists>w'. ensure_vm_running (waking_env 9 100) logged_in ''10.0.0.5'' (JStr ''u1'')
           (JStr ''Stopped'') 180 20 export_world = (Inl (SystemExit NotRunningInTime), w')
     \<and> trace w' = [Http (StartVmReq (JStr ''u1'')),
                   Sleep 3, Http (GetVmReq ''10.0.0.5''), Sleep 3, Http (GetVmReq ''10.0.0.5'')]
     \<and> now w' = 306"
  by (simp add: ensure_vm_running_def lower_or_empty_def lower_def lower_char_def py_or_def
      start_vm_def get_vm_by_ip_def headers_def http_call_def first_inventory_def dict_get_def
      index0_def settle_def poll.simps io_defs waking_env_def export_env_def export_world_def
      logged_in_def sample_vm_def)


text \<open>
  C1. Let the state first reported, in lower case, not be \<^verbatim>\<open>running\<close>, the client be
  logged in, the power-on request be accepted and every answer of the inventory be readable.
  Then \<^verbatim>\<open>ensure_vm_running\<close> sends one power-on request and after it only sleeps and
  lookups: \<open>m\<close> turns of three seconds of sleep and one lookup each, every one of them
  begun while the clock was before the deadline (\<open>max_wait\<close> seconds after the power-on
  request was answered). Either the last of the \<open>m\<close> lookups is the first to show a running
  VM, and the settle sleep follows and the call returns, the clock being that after the
  \<open>m\<close> turns plus the settle time; or none of them does, the clock after the \<open>m\<close>
  turns has reached the deadline and the call exits through \<^verbatim>\<open>die\<close> at once. In both
  cases no second power-on request was sent.
\<close>

theorem ensure_vm_running_polls:
  assumes "lower_or_empty initial_state = Inr state" and "state \<noteq> ''running''"
    and "truthy (session_uuid c)" and "0 \<le> settle_secs"
    and "http e (requests w) (StartVmReq vm_uuid) \<noteq> NoConnection"
    and "http e (requests w) (StartVmReq vm_uuid) \<noteq> BadStatus"
    and "\<forall>k. poll_view (http e k (GetVmReq ip)) \<noteq> None"
    and "ensure_vm_running e c ip vm_uuid initial_state max_wait settle_secs w = (r, w')"
  shows "\<exists>m evs. trace w' = trace w @ Http (StartVmReq vm_uuid) # evs
     \<and> filter is_power_on evs = []
     \<and> (\<forall>i<m. clock_after e (Suc (requests w)) (now w + int (http_latency e (requests w))) i
                < now w + int (http_latency e (requests w)) + max_wait)
     \<and> ((r = Inr () \<and> 0 < m \<and> running_at e ip (requests w + m)
            \<and> (\<forall>j<m - 1. \<not> running_at e ip (Suc (requests w) + j))
            \<and> evs = polls ip m @ settled settle_secs
            \<and> now w' = clock_after e (Suc (requests w))
                          (now w + int (http_latency e (requests w))) m + settle_secs)
        \<or> (r = Inl (SystemExit NotRunningInTime)
            \<and> now w + int (http_latency e (requests w)) + max_wait \<le> now w'
            \<and> now w' = clock_after e (Suc (requests w))
                          (now w + int (http_latency e (requests w))) m
            \<and> (\<forall>j<m. \<not> running_at e ip (Suc (requests w) + j))
            \<and> evs = polls ip m))"
proof -
  from start_vm_accepted [OF assms(3,5,6)] obtain w1 where
    sv: "start_vm e c vm_uuid w = (Inr (), w1)" and rq: "requests w1 = Suc (requests w)"
    and nw: "now w1 = now w + int (http_latency e (requests w))"
    and tr: "trace w1 = trace w @ [Http (StartVmReq vm_uuid)]" by blast
  from assms(1,2,8) sv have "poll e c ip settle_secs (now w1 + max_wait) w1 = (r, w')"
    by (simp add: ensure_vm_running_def)
  from poll_outcome [OF assms(3,4,7) this] obtain m where
    c: "\<forall>i<m. clock_after e (requests w1) (now w1) i < now w1 + max_wait"
    and m: "(r = Inr () \<and> 0 < m \<and> running_at e ip (requests w1 + (m - 1))
            \<and> (\<forall>j<m - 1. \<not> running_at e ip (requests w1 + j))
            \<and> trace w' = trace w1 @ polls ip m @ settled settle_secs
            \<and> now w' = clock_after e (requests w1) (now w1) m + settle_secs)
        \<or> (r = Inl (SystemExit NotRunningInTime) \<and> now w1 + max_wait \<le> now w'
            \<and> now w' = clock_after e (requests w1) (now w1) m
            \<and> (\<forall>j<m. \<not> running_at e ip (requests w1 + j))
            \<and> trace w' = trace w1 @ polls ip m)"
    unfolding poll_result_def by blast
  from m show ?thesis
  proof
    assume a: "r = Inr () \<and> 0 < m \<and> running_at e ip (requests w1 + (m - 1))
            \<and> (\<forall>j<m - 1. \<not> running_at e ip (requests w1 + j))
            \<and> trace w' = trace w1 @ polls ip m @ settled settle_secs
            \<and> now w' = clock_after e (requests w1) (now w1) m + settle_secs"
    then have "running_at e ip (requests w + m)" using rq by (cases m) simp_all
    with a c rq tr nw show ?thesis
      by (intro exI [of _ m] exI [of _ "polls ip m @ settled settle_secs"])
         (simp add: no_power_on_in_polls)
  next
    assume a: "r = Inl (SystemExit NotRunningInTime) \<and> now w1 + max_wait \<le> now w'
            \<and> now w' = clock_after e (requests w1) (now w1) m
            \<and> (\<forall>j<m. \<not> running_at e ip (requests w1 + j))
            \<and> trace w' = trace w1 @ polls ip m"
    with c rq tr nw show ?thesis
      by (intro exI [of _ m] exI [of _ "polls ip m"]) (simp add: no_power_on_in_polls)
  qed
qed

theorem ensure_vm_running_polls_witness:
  "(\<exists>w'. ensure_vm_running (waking_env 3 1) logged_in ''10.0.0.5'' (JStr ''u1'')
            (JStr ''Stopped'') 180 20 export_world = (Inr (), w')
      \<and> trace w' = Http (StartVmReq (JStr ''u1'')) # polls ''10.0.0.5'' 3 @ settled 20
      \<and> filter is_power_on (trace w') = [Http (StartVmReq (JStr ''u1''))]
      \<and> now w' = clock_after (waking_env 3 1) 1 1 3 + 20 \<and> now w' = 33)
   \<and> (\<exists>w'. ensure_vm_running (waking_env 9 100) logged_in ''10.0.0.5'' (JStr ''u1'')
            (JStr ''Stopped'') 180 20 export_world = (Inl (SystemExit NotRunningInTime), w')
      \<and> 280 \<le> now w'
      \<and> filter is_power_on (trace w') = [Http (StartVmReq (JStr ''u1''))]
      \<and> clock_after (waking_env 9 100) 1 100 1 < 280
      \<and> now w' = clock_after (waking_env 9 100) 1 100 2 \<and> now w' = 306)"
proof -
  have h1: "lower_or_empty (JStr ''Stopped'') = Inr ''stopped''"
    by (simp add: lower_or_empty_def py_or_def lower_def lower_char_def)
  have h2: "''stopped'' \<noteq> ''running''" by simp
  have h3: "truthy (session_uuid logged_in)" by (simp add: logged_in_def)
  have h4: "(0::int) \<le> 20" by simp
  have h5: "http (waking_env ready latency) (requests export_world) (StartVmReq (JStr ''u1''))
      \<noteq> NoConnection"
    and h6: "http (waking_env ready latency) (requests export_world) (StartVmReq (JStr ''u1''))
      \<noteq> BadStatus" for ready latency
    by (simp_all add: waking_env_def export_env_def)
  have h7: "\<forall>k. poll_view (http (waking_env ready latency) k (GetVmReq ''10.0.0.5'')) \<noteq> None"
    for ready latency by (simp add: waking_view)
  have e: "trace export_world = []" "now export_world = 0" "requests export_world = 0"
    by (simp_all add: export_world_def)
  have l: "http_latency (waking_env ready latency) k = latency" for ready latency k
    by (simp add: waking_env_def)
  have c1: "clock_after (waking_env 3 1) 1 1 3 + 20 = 33"
    by (simp add: numeral_3_eq_3 l)
  have c2: "clock_after (waking_env 9 100) 1 100 1 < 280"
    "clock_after (waking_env 9 100) 1 100 2 = 306"
    by (simp_all add: numeral_2_eq_2 l)
  from waking_run obtain w1 where
    r1: "ensure_vm_running (waking_env 3 1) logged_in ''10.0.0.5'' (JStr ''u1'')
            (JStr ''Stopped'') 180 20 export_world = (Inr (), w1)"
    and t1: "trace w1 = [Http (StartVmReq (JStr ''u1'')),
                   Sleep 3, Http (GetVmReq ''10.0.0.5''), Sleep 3, Http (GetVmReq ''10.0.0.5''),
                   Sleep 3, Http (GetVmReq ''10.0.0.5''), Sleep 20]"
    and n1: "now w1 = 33" by blast
  from ensure_vm_running_polls [OF h1 h2 h3 h4 h5 h6 h7 r1]
  have p1: "filter is_power_on (trace w1) = [Http (StartVmReq (JStr ''u1''))]"
    by (auto simp: e)
  have s1: "trace w1 = Http (StartVmReq (JStr ''u1'')) # polls ''10.0.0.5'' 3 @ settled 20"
    by (simp add: t1 polls_def settled_def numeral_3_eq_3)
  from sluggish_run obtain w2 where
    r2: "ensure_vm_running (waking_env 9 100) logged_in ''10.0.0.5'' (JStr ''u1'')
            (JStr ''Stopped'') 180 20 export_world = (Inl (SystemExit NotRunningInTime), w2)"
    and n2: "now w2 = 306"
    by blast
  from ensure_vm_running_polls [OF h1 h2 h3 h4 h5 h6 h7 r2]
  have p2: "filter is_power_on (trace w2) = [Http (StartVmReq (JStr ''u1''))]"
    by (auto simp: e)
  have d2: "280 \<le> now w2" by (simp add: n2)
  from r1 s1 p1 n1 c1 r2 d2 p2 n2 c2 show ?thesis by auto
qed

end
